theory Spec2Isabelle
  imports Complex_Main "HOL-Library.Log_Nat"
begin

section \<open>The trade ledger of OptimizedTradeManager\<close>

text \<open>
  A shallow embedding of the profit ledger and of the route selection of
  \<^verbatim>\<open>OptimizedTradeManager\<close> (the JavaScript class of the trading bot).

  Numbers. A JavaScript Number is modelled as an exact rational: the IEEE rounding of
  each operation is outside the model, and a Number of the model is never NaN or an
  infinity. The arguments that the source passes through \<^verbatim>\<open>parseFloat\<close> are taken
  as the finite numbers they parse to. Division by 0 is the one place where the
  arithmetic of the source leaves the finite numbers, so both divisions of
  \<^verbatim>\<open>recordSellTrade\<close> are guarded in the model: where \<^verbatim>\<open>costRatio\<close> would be
  0/0 the model stops with the outcome \<open>NotFinite\<close> (the source goes on with NaN), and
  \<^verbatim>\<open>profitPercentage\<close> is an option, \<open>None\<close> for a division by a zero cost.
  Where a claim turns on the rounding, the ledger is run a second time with the rounding
  of each operation written out (the subsection on double precision).

  Time. \<^verbatim>\<open>Date.now()\<close> and \<^verbatim>\<open>new Date().toISOString()\<close> read the clock;
  the reading is the field \<open>now\<close> of the environment (milliseconds), used for the id
  and for the timestamp of a new record.

  Files. \<^verbatim>\<open>trading-history.json\<close> is the persisted ledger. The store is modelled by
  what reading and parsing it gives.
\<close>

subsection \<open>Data model\<close>

datatype lot_status = HOLDING | SOLD

text \<open>The object literal \<^verbatim>\<open>buyTrade\<close> of \<^verbatim>\<open>recordBuyTrade\<close> (type 'BUY').\<close>

record buy_trade =
  buy_id :: nat
  tokenAddress :: string
  tokenSymbol :: string
  bnbAmount :: rat
  tokenAmount :: rat
  bnbPrice :: rat
  gasUsed :: rat
  timestamp :: nat
  txHash :: string
  status :: lot_status

text \<open>An entry of \<^verbatim>\<open>processedBuyTrades\<close>: \<^verbatim>\<open>{id, tokensUsed, costUsed, gasUsed}\<close>.\<close>

record used_buy =
  used_id :: nat
  tokensUsed :: rat
  costUsed :: rat
  used_gas :: rat

text \<open>
  The object literal \<^verbatim>\<open>sellTrade\<close> of \<^verbatim>\<open>recordSellTrade\<close> (type 'SELL').
  \<open>profitPercentage\<close> is \<open>None\<close> where the source divides by a zero
  \<^verbatim>\<open>totalCost\<close> (NaN or an infinity, which \<^verbatim>\<open>JSON.stringify\<close> writes as null).
\<close>

record sell_trade =
  sell_id :: nat
  sell_tokenAddress :: string
  sell_tokenSymbol :: string
  sell_tokenAmount :: rat
  bnbReceived :: rat
  sell_bnbPrice :: rat
  sell_gasUsed :: rat
  sell_timestamp :: nat
  sell_txHash :: string
  totalCost :: rat
  profit :: rat
  profitPercentage :: "rat option"
  buyTradesUsed :: "used_buy list"

datatype trade = Buy buy_trade | Sell sell_trade

record ledger_summary =
  totalTrades :: nat
  totalProfit :: rat
  totalLoss :: rat
  winRate :: rat

record history =
  trades :: "trade list"
  summary :: ledger_summary

text \<open>
  What \<^verbatim>\<open>JSON.parse\<close> gives for the ledger file: the JSON value null, or an object
  whose \<^verbatim>\<open>trades\<close> and \<^verbatim>\<open>summary\<close> may each be absent. A file whose text is
  a JSON array, string, number or boolean is not a value of this type: the model says
  nothing about such a file.
\<close>

record raw_history =
  raw_trades :: "trade list option"
  raw_summary :: "ledger_summary option"

datatype parsed = JNull | JObject raw_history

text \<open>
  The ledger file: \<open>NoFile\<close> when \<^verbatim>\<open>fs.readFileSync\<close> throws, \<open>Garbage\<close> when
  \<^verbatim>\<open>JSON.parse\<close> throws on its text, \<open>Document\<close> otherwise.
\<close>

datatype store = NoFile | Garbage | Document parsed

record env =
  now :: nat
  writable :: bool

text \<open>The object that \<^verbatim>\<open>recordSellTrade\<close> returns.\<close>

record sell_info =
  r_sellTradeId :: nat
  r_profit :: rat
  r_profitPercentage :: "rat option"
  r_totalCost :: rat
  r_revenue :: rat

subsection \<open>Strings\<close>

definition lower_char :: "char \<Rightarrow> char" where
  "lower_char c =
     (let n = (of_char c :: nat) in if 65 \<le> n \<and> n \<le> 90 then char_of (n + 32) else c)"

text \<open>\<^verbatim>\<open>String.prototype.toLowerCase\<close>, on the ASCII letters of an address.\<close>

definition toLowerCase :: "string \<Rightarrow> string" where
  "toLowerCase s = map lower_char s"

subsection \<open>Loading and saving the ledger\<close>

definition emptySummary :: ledger_summary where
  "emptySummary = \<lparr>totalTrades = 0, totalProfit = 0, totalLoss = 0, winRate = 0\<rparr>"

definition emptyHistory :: history where
  "emptyHistory = \<lparr>trades = [], summary = emptySummary\<rparr>"

text \<open>
  \<^verbatim>\<open>getTradingHistory\<close>: every exception of the try block is caught and answered by
  the empty ledger. Reading a property of null throws a TypeError, which is caught the
  same way.
\<close>

fun getTradingHistory :: "store \<Rightarrow> history" where
  "getTradingHistory NoFile = emptyHistory"
| "getTradingHistory Garbage = emptyHistory"
| "getTradingHistory (Document JNull) = emptyHistory"
| "getTradingHistory (Document (JObject h)) =
     \<lparr>trades = (case raw_trades h of None \<Rightarrow> [] | Some ts \<Rightarrow> ts),
      summary = (case raw_summary h of None \<Rightarrow> emptySummary | Some s \<Rightarrow> s)\<rparr>"

text \<open>\<^verbatim>\<open>fs.writeFileSync(file, JSON.stringify(history))\<close>, when it succeeds.\<close>

definition saved :: "history \<Rightarrow> store" where
  "saved h = Document (JObject \<lparr>raw_trades = Some (trades h), raw_summary = Some (summary h)\<rparr>)"

text \<open>The file that \<^verbatim>\<open>ensureTradingHistoryFile\<close> creates.\<close>

definition initialStore :: store where
  "initialStore = saved emptyHistory"

subsection \<open>recordBuyTrade\<close>

text \<open>
  Returns the id of the new record, or null (\<open>None\<close>) when the write throws; the
  store is then left as it was.
\<close>

definition recordBuyTrade ::
  "env \<Rightarrow> string \<Rightarrow> string \<Rightarrow> rat \<Rightarrow> rat \<Rightarrow> rat \<Rightarrow> rat \<Rightarrow> string \<Rightarrow> store \<Rightarrow> nat option \<times> store" where
  "recordBuyTrade e tokenAddr tokenSym bnbAmt tokenAmt bnbPr gasU txH st =
     (let hist = getTradingHistory st;
          buyTrade = \<lparr>buy_id = now e, tokenAddress = toLowerCase tokenAddr,
                      tokenSymbol = tokenSym, bnbAmount = bnbAmt, tokenAmount = tokenAmt,
                      bnbPrice = bnbPr, gasUsed = gasU, timestamp = now e, txHash = txH,
                      status = HOLDING\<rparr>;
          hist' = \<lparr>trades = trades hist @ [Buy buyTrade],
                   summary = (summary hist)\<lparr>totalTrades := totalTrades (summary hist) + 1\<rparr>\<rparr>
      in if writable e then (Some (buy_id buyTrade), saved hist') else (None, st))"

subsection \<open>recordSellTrade\<close>

text \<open>
  The HOLDING BUY records of a token, each with its position in \<^verbatim>\<open>history.trades\<close>.
  The positions stand for the object references of the source: the loop below mutates
  the records of \<^verbatim>\<open>history.trades\<close> through them.
\<close>

fun holdingAt :: "string \<Rightarrow> nat \<times> trade \<Rightarrow> (nat \<times> buy_trade) option" where
  "holdingAt a (i, Buy b) = (if tokenAddress b = a \<and> status b = HOLDING then Some (i, b) else None)"
| "holdingAt a (i, Sell s) = None"

text \<open>
  \<^verbatim>\<open>history.trades.filter(...).sort((a, b) => new Date(a.timestamp) - new Date(b.timestamp))\<close>:
  ascending by timestamp; the sort is stable, as \<^verbatim>\<open>Array.prototype.sort\<close> is.
\<close>

definition holdingBuyTrades :: "string \<Rightarrow> trade list \<Rightarrow> (nat \<times> buy_trade) list" where
  "holdingBuyTrades a ts =
     sort_key (\<lambda>p. timestamp (snd p)) (List.map_filter (holdingAt a) (enumerate 0 ts))"

text \<open>
  The outcome that the model does not follow: \<^verbatim>\<open>costRatio\<close> divides by a
  \<^verbatim>\<open>tokenAmount\<close> that is 0, and the source goes on computing with NaN.
\<close>

datatype gap = NotFinite

record loop_state =
  l_trades :: "trade list"
  remainingTokensToSell :: rat
  l_totalCost :: rat
  l_totalGasUsed :: rat
  processedBuyTrades :: "used_buy list"

text \<open>
  The body of the loop for one lot, given \<^verbatim>\<open>remainingTokensToSell\<close>: the entry pushed
  on \<^verbatim>\<open>processedBuyTrades\<close> and the lot as the body leaves it.
\<close>

definition consumeLot :: "rat \<Rightarrow> buy_trade \<Rightarrow> gap + (used_buy \<times> buy_trade)" where
  "consumeLot remaining buyTrade =
     (let tokensFromThisBuy = min remaining (tokenAmount buyTrade) in
      if tokenAmount buyTrade = 0 then Inl NotFinite
      else
        let costRatio = tokensFromThisBuy / tokenAmount buyTrade;
            costFromThisBuy = bnbAmount buyTrade * costRatio;
            gasFromThisBuy = gasUsed buyTrade * costRatio;
            entry = \<lparr>used_id = buy_id buyTrade, tokensUsed = tokensFromThisBuy,
                     costUsed = costFromThisBuy, used_gas = gasFromThisBuy\<rparr>
        in if tokensFromThisBuy \<ge> tokenAmount buyTrade
           then Inr (entry, buyTrade\<lparr>status := SOLD\<rparr>)
           else Inr (entry, buyTrade\<lparr>tokenAmount := tokenAmount buyTrade - tokensFromThisBuy,
                                     bnbAmount := bnbAmount buyTrade - costFromThisBuy,
                                     gasUsed := gasUsed buyTrade - gasFromThisBuy\<rparr>))"

text \<open>
  \<^verbatim>\<open>for (const buyTrade of buyTrades) { if (remainingTokensToSell <= 0) break; ... }\<close>
  Each element of \<^verbatim>\<open>buyTrades\<close> is a record of \<^verbatim>\<open>history.trades\<close>, given here by
  its position \<open>i\<close> and its fields at the time of the selection. The records are
  distinct objects and the loop writes a record only in its own iteration, so these are
  the fields that the iteration reads; the write goes to position \<open>i\<close> of the ledger.
\<close>

fun sell_loop :: "(nat \<times> buy_trade) list \<Rightarrow> loop_state \<Rightarrow> gap + loop_state" where
  "sell_loop [] ls = Inr ls"
| "sell_loop ((i, buyTrade) # rest) ls =
     (if remainingTokensToSell ls \<le> 0 then Inr ls
      else case consumeLot (remainingTokensToSell ls) buyTrade of
        Inl g \<Rightarrow> Inl g
      | Inr (entry, buyTrade') \<Rightarrow>
          sell_loop rest
            \<lparr>l_trades = (l_trades ls)[i := Buy buyTrade'],
             remainingTokensToSell = remainingTokensToSell ls - tokensUsed entry,
             l_totalCost = l_totalCost ls + costUsed entry,
             l_totalGasUsed = l_totalGasUsed ls + used_gas entry,
             processedBuyTrades = processedBuyTrades ls @ [entry]\<rparr>)"

fun isSell :: "trade \<Rightarrow> bool" where
  "isSell (Sell s) = True"
| "isSell (Buy b) = False"

fun isProfitableSell :: "trade \<Rightarrow> bool" where
  "isProfitableSell (Sell s) = (profit s > 0)"
| "isProfitableSell (Buy b) = False"

text \<open>
  The update of \<^verbatim>\<open>history.summary\<close> after the SELL record has been pushed on
  \<open>ts\<close>.
\<close>

definition updateSummary :: "ledger_summary \<Rightarrow> rat \<Rightarrow> trade list \<Rightarrow> ledger_summary" where
  "updateSummary s p ts =
     (let s1 = s\<lparr>totalTrades := totalTrades s + 1\<rparr>;
          s2 = (if p > 0 then s1\<lparr>totalProfit := totalProfit s1 + p\<rparr>
                else s1\<lparr>totalLoss := totalLoss s1 + \<bar>p\<bar>\<rparr>);
          profitableTrades = length (filter isProfitableSell ts);
          totalSellTrades = length (filter isSell ts)
      in s2\<lparr>winRate := (if totalSellTrades > 0
                         then of_nat profitableTrades / of_nat totalSellTrades * 100 else 0)\<rparr>)"

text \<open>
  The result is \<open>Inr (None, st)\<close> where the source returns null, with the store as the
  call leaves it, and \<open>Inr (Some info, st')\<close> where it returns the profit object.
\<close>

definition recordSellTrade ::
  "env \<Rightarrow> string \<Rightarrow> string \<Rightarrow> rat \<Rightarrow> rat \<Rightarrow> rat \<Rightarrow> rat \<Rightarrow> string \<Rightarrow> store
     \<Rightarrow> gap + (sell_info option \<times> store)" where
  "recordSellTrade e tokenAddr tokenSym tokenAmt bnbRecv bnbPr gasU txH st =
     (let hist = getTradingHistory st;
          buyTrades = holdingBuyTrades (toLowerCase tokenAddr) (trades hist)
      in if length buyTrades = 0 then Inr (None, st)
         else
           case sell_loop buyTrades
                  \<lparr>l_trades = trades hist, remainingTokensToSell = tokenAmt, l_totalCost = 0,
                   l_totalGasUsed = gasU, processedBuyTrades = []\<rparr> of
             Inl g \<Rightarrow> Inl g
           | Inr ls \<Rightarrow>
               let revenue = bnbRecv;
                   prof = revenue - l_totalCost ls;
                   pct = (if l_totalCost ls = 0 then None
                          else Some (prof / l_totalCost ls * 100));
                   sellTrade = \<lparr>sell_id = now e, sell_tokenAddress = toLowerCase tokenAddr,
                                sell_tokenSymbol = tokenSym, sell_tokenAmount = tokenAmt,
                                bnbReceived = revenue, sell_bnbPrice = bnbPr,
                                sell_gasUsed = l_totalGasUsed ls, sell_timestamp = now e,
                                sell_txHash = txH, totalCost = l_totalCost ls, profit = prof,
                                profitPercentage = pct,
                                buyTradesUsed = processedBuyTrades ls\<rparr>;
                   ts' = l_trades ls @ [Sell sellTrade];
                   hist' = \<lparr>trades = ts', summary = updateSummary (summary hist) prof ts'\<rparr>
               in if writable e
                  then Inr (Some \<lparr>r_sellTradeId = sell_id sellTrade, r_profit = prof,
                                   r_profitPercentage = pct, r_totalCost = l_totalCost ls,
                                   r_revenue = revenue\<rparr>, saved hist')
                  else Inr (None, st))"

subsection \<open>Route selection\<close>

datatype router_version = V2 | V3

text \<open>
  The object a quote function returns on success. \<open>expectedAmount\<close> is the number
  that \<^verbatim>\<open>parseFloat\<close> reads from the formatted amount; \<open>amountOut\<close> is the raw
  amount in the smallest denomination.
\<close>

record quote =
  version :: router_version
  expectedAmount :: rat
  fee :: "nat option"
  amountIn :: nat
  amountOut :: nat

text \<open>
  \<^verbatim>\<open>{success: true, ...}\<close> or \<^verbatim>\<open>{success: false, error}\<close>; and the settlement
  of the promise, as \<^verbatim>\<open>Promise.allSettled\<close> reports it.
\<close>

datatype quote_value = QuoteOk quote | QuoteFailed string

datatype settled = Fulfilled quote_value | Rejected

text \<open>An element of the array \<^verbatim>\<open>quotes\<close> of \<^verbatim>\<open>getBestRoute\<close>.\<close>

record route_quote =
  rq_version :: router_version
  rq_expectedAmount :: rat
  rq_quote :: quote

text \<open>
  \<^verbatim>\<open>comparison.improvement\<close> before \<^verbatim>\<open>toFixed(2)\<close>: the literal '0%' for a
  single quote, otherwise the percentage over the smallest quote, which is not finite
  (\<open>None\<close>) when the smallest quote is 0.
\<close>

datatype improvement = ZeroPercent | Percent "rat option"

record comparison =
  totalQuotes :: nat
  bestPrice :: rat
  improvement :: improvement

datatype route_result =
    NoValidQuote
  | BestRoute quote "route_quote list" comparison

text \<open>
  \<^verbatim>\<open>if (q.status === 'fulfilled' && q.value.success) quotes.push({version, expectedAmount, quote})\<close>
\<close>

fun pushQuote :: "router_version \<Rightarrow> settled \<Rightarrow> route_quote list" where
  "pushQuote v (Fulfilled (QuoteOk q)) =
     [\<lparr>rq_version = v, rq_expectedAmount = expectedAmount q, rq_quote = q\<rparr>]"
| "pushQuote v (Fulfilled (QuoteFailed err)) = []"
| "pushQuote v Rejected = []"

text \<open>\<^verbatim>\<open>quotes.reduce((best, current) => current.expectedAmount > best.expectedAmount ? current : best)\<close>\<close>

definition better :: "route_quote \<Rightarrow> route_quote \<Rightarrow> route_quote" where
  "better best current =
     (if rq_expectedAmount current > rq_expectedAmount best then current else best)"

fun minimum :: "rat list \<Rightarrow> rat" where
  "minimum [] = 0"
| "minimum (x # xs) = fold min xs x"

text \<open>
  The array \<^verbatim>\<open>quotes\<close> of \<^verbatim>\<open>getBestRoute\<close>. The two quote functions are the
  external quoting capability; they are called for the V2 router and for the V3 fee
  tiers 2500, 500 and 10000, in this order, and all four settle before the selection.
\<close>

definition collectQuotes ::
  "(string \<Rightarrow> rat \<Rightarrow> bool \<Rightarrow> settled) \<Rightarrow> (string \<Rightarrow> rat \<Rightarrow> bool \<Rightarrow> nat \<Rightarrow> settled)
     \<Rightarrow> string \<Rightarrow> rat \<Rightarrow> bool \<Rightarrow> route_quote list" where
  "collectQuotes getV2Quote getV3Quote tokenAddr bnbAmt isBuy =
     (let v2Quote = getV2Quote tokenAddr bnbAmt isBuy;
          v3Quote2500 = getV3Quote tokenAddr bnbAmt isBuy 2500;
          v3Quote500 = getV3Quote tokenAddr bnbAmt isBuy 500;
          v3Quote10000 = getV3Quote tokenAddr bnbAmt isBuy 10000
      in pushQuote V2 v2Quote
           @ concat (map (pushQuote V3) [v3Quote2500, v3Quote500, v3Quote10000]))"

definition getBestRoute ::
  "(string \<Rightarrow> rat \<Rightarrow> bool \<Rightarrow> settled) \<Rightarrow> (string \<Rightarrow> rat \<Rightarrow> bool \<Rightarrow> nat \<Rightarrow> settled)
     \<Rightarrow> string \<Rightarrow> rat \<Rightarrow> bool \<Rightarrow> route_result" where
  "getBestRoute getV2Quote getV3Quote tokenAddr bnbAmt isBuy =
     (let quotes = collectQuotes getV2Quote getV3Quote tokenAddr bnbAmt isBuy
      in case quotes of
           [] \<Rightarrow> NoValidQuote
         | q # qs \<Rightarrow>
             let bestRoute = foldl better q qs;
                 lowest = minimum (map rq_expectedAmount quotes)
             in BestRoute (rq_quote bestRoute) quotes
                  \<lparr>totalQuotes = length quotes,
                   bestPrice = rq_expectedAmount bestRoute,
                   improvement =
                     (if length quotes > 1
                      then Percent (if lowest = 0 then None
                                    else Some ((rq_expectedAmount bestRoute - lowest) / lowest * 100))
                      else ZeroPercent)\<rparr>)"

text \<open>
  For the statements below: the four candidates in the order of the call, and the
  quote of a candidate that succeeded.
\<close>

definition candidates ::
  "(string \<Rightarrow> rat \<Rightarrow> bool \<Rightarrow> settled) \<Rightarrow> (string \<Rightarrow> rat \<Rightarrow> bool \<Rightarrow> nat \<Rightarrow> settled)
     \<Rightarrow> string \<Rightarrow> rat \<Rightarrow> bool \<Rightarrow> settled list" where
  "candidates getV2Quote getV3Quote tokenAddr bnbAmt isBuy =
     [getV2Quote tokenAddr bnbAmt isBuy, getV3Quote tokenAddr bnbAmt isBuy 2500,
      getV3Quote tokenAddr bnbAmt isBuy 500, getV3Quote tokenAddr bnbAmt isBuy 10000]"

fun okQuote :: "settled \<Rightarrow> quote option" where
  "okQuote (Fulfilled (QuoteOk q)) = Some q"
| "okQuote (Fulfilled (QuoteFailed err)) = None"
| "okQuote Rejected = None"

text \<open>
  The quotes of the scenario: V2 gives 100, V3 gives 95 at fee 500 and 110 at fee
  2500, and the V3 quote at fee 10000 fails.
\<close>

definition v2Quote100 :: quote where
  "v2Quote100 = \<lparr>version = V2, expectedAmount = 100, fee = None, amountIn = 1, amountOut = 100\<rparr>"

definition v3Quote :: "nat \<Rightarrow> nat \<Rightarrow> quote" where
  "v3Quote f out =
     \<lparr>version = V3, expectedAmount = of_nat out, fee = Some f, amountIn = 1, amountOut = out\<rparr>"

definition scenarioV2 :: "string \<Rightarrow> rat \<Rightarrow> bool \<Rightarrow> settled" where
  "scenarioV2 tokenAddr bnbAmt isBuy = Fulfilled (QuoteOk v2Quote100)"

definition scenarioV3 :: "string \<Rightarrow> rat \<Rightarrow> bool \<Rightarrow> nat \<Rightarrow> settled" where
  "scenarioV3 tokenAddr bnbAmt isBuy f =
     (if f = 500 then Fulfilled (QuoteOk (v3Quote 500 95))
      else if f = 2500 then Fulfilled (QuoteOk (v3Quote 2500 110))
      else Fulfilled (QuoteFailed ''no pool''))"

subsection \<open>The minimum output of a buy\<close>

datatype js_error = RangeError

text \<open>
  \<^verbatim>\<open>BigInt(x)\<close> of a Number: a RangeError unless the number is an integer.
\<close>

definition toBigInt :: "rat \<Rightarrow> js_error + int" where
  "toBigInt x = (if of_int \<lfloor>x\<rfloor> = x then Inr \<lfloor>x\<rfloor> else Inl RangeError)"

text \<open>Division of BigInts truncates towards zero; the divisor below is the literal 100.\<close>

definition bigintDiv :: "int \<Rightarrow> int \<Rightarrow> int" where
  "bigintDiv a b =
     (if (a < 0) = (b < 0) then \<bar>a\<bar> div \<bar>b\<bar> else - (\<bar>a\<bar> div \<bar>b\<bar>))"

text \<open>
  \<^verbatim>\<open>amounts[1] * BigInt(100 - this.settings.slippage) / BigInt(100)\<close> of
  \<^verbatim>\<open>smartBuy\<close>, and the same expression on \<^verbatim>\<open>quoted\<close> in \<^verbatim>\<open>smartBuyV3\<close>.
  The exception is caught by the try block of the buy, which then returns a failure
  without submitting the swap.
\<close>

definition amountOutMin :: "int \<Rightarrow> rat \<Rightarrow> js_error + int" where
  "amountOutMin expectedOut slip =
     (case toBigInt (100 - slip) of
        Inl err \<Rightarrow> Inl err
      | Inr k \<Rightarrow> Inr (bigintDiv (expectedOut * k) 100))"

record settings =
  slippage :: rat
  gasPrice :: rat
  gasLimit :: nat

text \<open>
  \<^verbatim>\<open>slippage: (config.DEFAULT_SLIPPAGE / 100) || 5\<close> of the constructor: the
  configured basis points as a percentage, and 5 when that is 0.
\<close>

definition defaultSlippage :: "rat \<Rightarrow> rat" where
  "defaultSlippage basisPoints = (if basisPoints / 100 = 0 then 5 else basisPoints / 100)"

text \<open>
  \<^verbatim>\<open>handleSlippageSet\<close> of the bot, on the number that \<^verbatim>\<open>parseFloat\<close> read from
  the command: rejected outside 0.1 .. 50, stored otherwise.
\<close>

definition handleSlippageSet :: "rat \<Rightarrow> settings \<Rightarrow> settings" where
  "handleSlippageSet slip s =
     (if slip < 1 / 10 \<or> slip > 50 then s else s\<lparr>slippage := slip\<rparr>)"

subsection \<open>The allocation of a sell, as the specification words it\<close>

text \<open>
  The specification of \<^verbatim>\<open>recordSell\<close>: walk the sorted lots; from each lot consume
  the smaller of the quantity still to sell and the lot's token amount; the cost taken
  from the lot is its native amount times the consumed share, and the gas likewise; stop
  once the requested quantity is allocated. \<open>specFragments\<close> is this walk as a function of
  the quantity and the lots; the loop of the source is compared with it below.
\<close>

fun specFragments :: "rat \<Rightarrow> buy_trade list \<Rightarrow> used_buy list" where
  "specFragments r [] = []"
| "specFragments r (b # bs) =
     (if r \<le> 0 then []
      else \<lparr>used_id = buy_id b, tokensUsed = min r (tokenAmount b),
             costUsed = bnbAmount b * (min r (tokenAmount b) / tokenAmount b),
             used_gas = gasUsed b * (min r (tokenAmount b) / tokenAmount b)\<rparr>
           # specFragments (r - min r (tokenAmount b)) bs)"

text \<open>The record at the end of the ledger, when it is a SELL record.\<close>

definition lastSell :: "store \<Rightarrow> sell_trade option" where
  "lastSell st = (case rev (trades (getTradingHistory st)) of Sell s # ts \<Rightarrow> Some s | _ \<Rightarrow> None)"

text \<open>
  The lot that a fragment leaves, as the specification words it: SOLD when the fragment
  uses up the lot's token amount, and otherwise the lot less the tokens, the cost and
  the gas of the fragment.
\<close>

definition lotAfter :: "used_buy \<Rightarrow> buy_trade \<Rightarrow> buy_trade" where
  "lotAfter entry buyTrade =
     (if tokensUsed entry \<ge> tokenAmount buyTrade then buyTrade\<lparr>status := SOLD\<rparr>
      else buyTrade\<lparr>tokenAmount := tokenAmount buyTrade - tokensUsed entry,
                    bnbAmount := bnbAmount buyTrade - costUsed entry,
                    gasUsed := gasUsed buyTrade - used_gas entry\<rparr>)"

subsection \<open>Sequences of calls\<close>

text \<open>
  A call of \<^verbatim>\<open>recordBuyTrade\<close> or of \<^verbatim>\<open>recordSellTrade\<close> with its arguments and
  its environment, and the store after a sequence of calls, each reading the file that
  the one before wrote.
\<close>

datatype op =
    RecordBuy env string string rat rat rat rat string
  | RecordSell env string string rat rat rat rat string

fun applyOp :: "op \<Rightarrow> store \<Rightarrow> gap + store" where
  "applyOp (RecordBuy e a sy bnb tok pr gas tx) st =
     Inr (snd (recordBuyTrade e a sy bnb tok pr gas tx st))"
| "applyOp (RecordSell e a sy tok recv pr gas tx) st =
     (case recordSellTrade e a sy tok recv pr gas tx st of
        Inl g \<Rightarrow> Inl g
      | Inr r \<Rightarrow> Inr (snd r))"

fun run :: "op list \<Rightarrow> store \<Rightarrow> gap + store" where
  "run [] st = Inr st"
| "run (x # xs) st = (case applyOp x st of Inl g \<Rightarrow> Inl g | Inr st' \<Rightarrow> run xs st')"



text \<open>
  Calls as the callers make them: a buy that receives tokens; a buy, and a sell, of the
  token \<open>a\<close> with a positive token amount whose write succeeds.
\<close>

fun buysTokens :: "op \<Rightarrow> bool" where
  "buysTokens (RecordBuy e a sy bnb tok pr gas tx) = (tok \<noteq> 0)"
| "buysTokens (RecordSell e a sy tok recv pr gas tx) = True"



text \<open>Ledgers whose BUY records have a token amount other than 0, and a positive one.\<close>

definition lotsNonzero :: "trade list \<Rightarrow> bool" where
  "lotsNonzero ts \<longleftrightarrow> (\<forall>b. Buy b \<in> set ts \<longrightarrow> tokenAmount b \<noteq> 0)"


subsection \<open>The summary and the cost of a position, as the specification words them\<close>

text \<open>
  The summary of the specification: \<^verbatim>\<open>totalProfit\<close> is the sum of the positive SELL
  profits, \<^verbatim>\<open>totalLoss\<close> the sum of the absolute values of the negative ones, and
  \<^verbatim>\<open>winRate\<close> is 100 times the number of SELL records with a positive profit over the
  number of SELL records, and 0 when there is none.
\<close>

fun gain :: "trade \<Rightarrow> rat" where
  "gain (Sell s) = (if profit s > 0 then profit s else 0)"
| "gain (Buy b) = 0"

fun loss :: "trade \<Rightarrow> rat" where
  "loss (Sell s) = (if profit s < 0 then \<bar>profit s\<bar> else 0)"
| "loss (Buy b) = 0"

definition summaryConsistent :: "history \<Rightarrow> bool" where
  "summaryConsistent h \<longleftrightarrow>
     totalProfit (summary h) = sum_list (map gain (trades h))
   \<and> totalLoss (summary h) = sum_list (map loss (trades h))
   \<and> winRate (summary h) =
       (if length (filter isSell (trades h)) = 0 then 0
        else 100 * of_nat (length (filter isProfitableSell (trades h)))
               / of_nat (length (filter isSell (trades h))))"



fun sellCost :: "string \<Rightarrow> trade \<Rightarrow> rat" where
  "sellCost a (Sell s) =
     (if sell_tokenAddress s = a then sum_list (map costUsed (buyTradesUsed s)) else 0)"
| "sellCost a (Buy b) = 0"

definition consumedCost :: "string \<Rightarrow> trade list \<Rightarrow> rat" where
  "consumedCost a ts = sum_list (map (sellCost a) ts)"

subsection \<open>Scenarios\<close>

text \<open>
  The ledger of the specification's scenario: a BUY of 100 tokens for 0.1 (lot A), then a
  BUY of 66.67 tokens for 0.2 (lot B), of the same token.
\<close>

definition lotA :: buy_trade where
  "lotA = \<lparr>buy_id = 1, tokenAddress = ''0xab'', tokenSymbol = ''CAKE'', bnbAmount = 1 / 10,
            tokenAmount = 100, bnbPrice = 1, gasUsed = 21000, timestamp = 1, txHash = ''0x12'',
            status = HOLDING\<rparr>"

definition lotB :: buy_trade where
  "lotB = \<lparr>buy_id = 2, tokenAddress = ''0xab'', tokenSymbol = ''CAKE'', bnbAmount = 2 / 10,
            tokenAmount = 6667 / 100, bnbPrice = 1, gasUsed = 21000, timestamp = 2, txHash = ''0x23'',
            status = HOLDING\<rparr>"

definition scenarioStore :: store where
  "scenarioStore =
     snd (recordBuyTrade \<lparr>now = 2, writable = True\<rparr> ''0xab'' ''CAKE'' (2 / 10) (6667 / 100) 1 21000 ''0x23''
       (snd (recordBuyTrade \<lparr>now = 1, writable = True\<rparr> ''0xab'' ''CAKE'' (1 / 10) 100 1 21000 ''0x12''
          initialStore)))"

text \<open>A ledger with lot A alone, and the same with a lot bought at no gas.\<close>

definition oneLotStore :: store where
  "oneLotStore =
     snd (recordBuyTrade \<lparr>now = 1, writable = True\<rparr> ''0xab'' ''CAKE'' (1 / 10) 100 1 21000 ''0x12''
            initialStore)"

definition zeroGasStore :: store where
  "zeroGasStore =
     snd (recordBuyTrade \<lparr>now = 1, writable = True\<rparr> ''0xab'' ''CAKE'' (1 / 10) 100 1 0 ''0x12''
            initialStore)"

text \<open>
  Two buys of a token (100 tokens for 0.1, 80 tokens for 0.2) and two sells that exhaust
  them (50 tokens for 0.15, 130 tokens for 0.2).
\<close>

definition buyOps :: "op list" where
  "buyOps =
     [RecordBuy \<lparr>now = 1, writable = True\<rparr> ''0xab'' ''CAKE'' (1 / 10) 100 1 21000 ''0x12'',
      RecordBuy \<lparr>now = 2, writable = True\<rparr> ''0xab'' ''CAKE'' (2 / 10) 80 1 21000 ''0x23'']"

definition sellOps :: "op list" where
  "sellOps =
     [RecordSell \<lparr>now = 3, writable = True\<rparr> ''0xab'' ''CAKE'' 50 (15 / 100) 1 25000 ''0x34'',
      RecordSell \<lparr>now = 4, writable = True\<rparr> ''0xab'' ''CAKE'' 130 (20 / 100) 1 25000 ''0x45'']"

subsection \<open>The ledger in double precision\<close>





text \<open>
  \<^verbatim>\<open>recordBuyTrade\<close> and \<^verbatim>\<open>recordSellTrade\<close> once more, line by line as above,
  with the rounding \<open>fl\<close> applied where the source computes a Number: to what
  \<^verbatim>\<open>parseFloat\<close> reads and to the result of each arithmetic operation.
  \<^verbatim>\<open>Math.min\<close> and the comparisons are exact, and so is the passage of a Number
  through \<^verbatim>\<open>JSON.stringify\<close> and \<^verbatim>\<open>JSON.parse\<close>. With the identity for \<open>fl\<close>
  these are the definitions above; with \<open>fl53\<close> they compute what the source computes
  in double precision.
\<close>

definition recordBuyTradeFl ::
  "(rat \<Rightarrow> rat) \<Rightarrow> env \<Rightarrow> string \<Rightarrow> string \<Rightarrow> rat \<Rightarrow> rat \<Rightarrow> rat \<Rightarrow> rat \<Rightarrow> string \<Rightarrow> store
     \<Rightarrow> nat option \<times> store" where
  "recordBuyTradeFl fl e tokenAddr tokenSym bnbAmt tokenAmt bnbPr gasU txH st =
     (let hist = getTradingHistory st;
          buyTrade = \<lparr>buy_id = now e, tokenAddress = toLowerCase tokenAddr,
                      tokenSymbol = tokenSym, bnbAmount = fl bnbAmt, tokenAmount = fl tokenAmt,
                      bnbPrice = fl bnbPr, gasUsed = fl gasU, timestamp = now e, txHash = txH,
                      status = HOLDING\<rparr>;
          hist' = \<lparr>trades = trades hist @ [Buy buyTrade],
                   summary = (summary hist)\<lparr>totalTrades := totalTrades (summary hist) + 1\<rparr>\<rparr>
      in if writable e then (Some (buy_id buyTrade), saved hist') else (None, st))"

definition consumeLotFl :: "(rat \<Rightarrow> rat) \<Rightarrow> rat \<Rightarrow> buy_trade \<Rightarrow> gap + (used_buy \<times> buy_trade)" where
  "consumeLotFl fl remaining buyTrade =
     (let tokensFromThisBuy = min remaining (tokenAmount buyTrade) in
      if tokenAmount buyTrade = 0 then Inl NotFinite
      else
        let costRatio = fl (tokensFromThisBuy / tokenAmount buyTrade);
            costFromThisBuy = fl (bnbAmount buyTrade * costRatio);
            gasFromThisBuy = fl (gasUsed buyTrade * costRatio);
            entry = \<lparr>used_id = buy_id buyTrade, tokensUsed = tokensFromThisBuy,
                     costUsed = costFromThisBuy, used_gas = gasFromThisBuy\<rparr>
        in if tokensFromThisBuy \<ge> tokenAmount buyTrade
           then Inr (entry, buyTrade\<lparr>status := SOLD\<rparr>)
           else Inr (entry,
                  buyTrade\<lparr>tokenAmount := fl (tokenAmount buyTrade - tokensFromThisBuy),
                            bnbAmount := fl (bnbAmount buyTrade - costFromThisBuy),
                            gasUsed := fl (gasUsed buyTrade - gasFromThisBuy)\<rparr>))"

fun sell_loopFl ::
  "(rat \<Rightarrow> rat) \<Rightarrow> (nat \<times> buy_trade) list \<Rightarrow> loop_state \<Rightarrow> gap + loop_state" where
  "sell_loopFl fl [] ls = Inr ls"
| "sell_loopFl fl ((i, buyTrade) # rest) ls =
     (if remainingTokensToSell ls \<le> 0 then Inr ls
      else case consumeLotFl fl (remainingTokensToSell ls) buyTrade of
        Inl g \<Rightarrow> Inl g
      | Inr (entry, buyTrade') \<Rightarrow>
          sell_loopFl fl rest
            \<lparr>l_trades = (l_trades ls)[i := Buy buyTrade'],
             remainingTokensToSell = fl (remainingTokensToSell ls - tokensUsed entry),
             l_totalCost = fl (l_totalCost ls + costUsed entry),
             l_totalGasUsed = fl (l_totalGasUsed ls + used_gas entry),
             processedBuyTrades = processedBuyTrades ls @ [entry]\<rparr>)"

definition updateSummaryFl ::
  "(rat \<Rightarrow> rat) \<Rightarrow> ledger_summary \<Rightarrow> rat \<Rightarrow> trade list \<Rightarrow> ledger_summary" where
  "updateSummaryFl fl s p ts =
     (let s1 = s\<lparr>totalTrades := totalTrades s + 1\<rparr>;
          s2 = (if p > 0 then s1\<lparr>totalProfit := fl (totalProfit s1 + p)\<rparr>
                else s1\<lparr>totalLoss := fl (totalLoss s1 + \<bar>p\<bar>)\<rparr>);
          profitableTrades = length (filter isProfitableSell ts);
          totalSellTrades = length (filter isSell ts)
      in s2\<lparr>winRate := (if totalSellTrades > 0
                         then fl (fl (of_nat profitableTrades / of_nat totalSellTrades) * 100)
                         else 0)\<rparr>)"

definition recordSellTradeFl ::
  "(rat \<Rightarrow> rat) \<Rightarrow> env \<Rightarrow> string \<Rightarrow> string \<Rightarrow> rat \<Rightarrow> rat \<Rightarrow> rat \<Rightarrow> rat \<Rightarrow> string \<Rightarrow> store
     \<Rightarrow> gap + (sell_info option \<times> store)" where
  "recordSellTradeFl fl e tokenAddr tokenSym tokenAmt bnbRecv bnbPr gasU txH st =
     (let hist = getTradingHistory st;
          buyTrades = holdingBuyTrades (toLowerCase tokenAddr) (trades hist)
      in if length buyTrades = 0 then Inr (None, st)
         else
           case sell_loopFl fl buyTrades
                  \<lparr>l_trades = trades hist, remainingTokensToSell = fl tokenAmt, l_totalCost = 0,
                   l_totalGasUsed = fl gasU, processedBuyTrades = []\<rparr> of
             Inl g \<Rightarrow> Inl g
           | Inr ls \<Rightarrow>
               let revenue = fl bnbRecv;
                   prof = fl (revenue - l_totalCost ls);
                   pct = (if l_totalCost ls = 0 then None
                          else Some (fl (fl (prof / l_totalCost ls) * 100)));
                   sellTrade = \<lparr>sell_id = now e, sell_tokenAddress = toLowerCase tokenAddr,
                                sell_tokenSymbol = tokenSym, sell_tokenAmount = fl tokenAmt,
                                bnbReceived = revenue, sell_bnbPrice = fl bnbPr,
                                sell_gasUsed = l_totalGasUsed ls, sell_timestamp = now e,
                                sell_txHash = txH, totalCost = l_totalCost ls, profit = prof,
                                profitPercentage = pct,
                                buyTradesUsed = processedBuyTrades ls\<rparr>;
                   ts' = l_trades ls @ [Sell sellTrade];
                   hist' = \<lparr>trades = ts', summary = updateSummaryFl fl (summary hist) prof ts'\<rparr>
               in if writable e
                  then Inr (Some \<lparr>r_sellTradeId = sell_id sellTrade, r_profit = prof,
                                   r_profitPercentage = pct, r_totalCost = l_totalCost ls,
                                   r_revenue = revenue\<rparr>, saved hist')
                  else Inr (None, st))"

fun applyOpFl :: "(rat \<Rightarrow> rat) \<Rightarrow> op \<Rightarrow> store \<Rightarrow> gap + store" where
  "applyOpFl fl (RecordBuy e a sy bnb tok pr gas tx) st =
     Inr (snd (recordBuyTradeFl fl e a sy bnb tok pr gas tx st))"
| "applyOpFl fl (RecordSell e a sy tok recv pr gas tx) st =
     (case recordSellTradeFl fl e a sy tok recv pr gas tx st of
        Inl g \<Rightarrow> Inl g
      | Inr r \<Rightarrow> Inr (snd r))"

fun runFl :: "(rat \<Rightarrow> rat) \<Rightarrow> op list \<Rightarrow> store \<Rightarrow> gap + store" where
  "runFl fl [] st = Inr st"
| "runFl fl (x # xs) st = (case applyOpFl fl x st of Inl g \<Rightarrow> Inl g | Inr st' \<Rightarrow> runFl fl xs st')"

text \<open>
  Two buys of a token (10^18 tokens for 0.1, 50 tokens for 0.2) and two sells of the
  same quantities (50 tokens for 0.15, 10^18 tokens for 0.2).
\<close>

definition largeBuys :: "op list" where
  "largeBuys =
     [RecordBuy \<lparr>now = 1, writable = True\<rparr> ''0xab'' ''CAKE'' (1 / 10) (10 ^ 18) 1 21000 ''0x12'',
      RecordBuy \<lparr>now = 2, writable = True\<rparr> ''0xab'' ''CAKE'' (2 / 10) 50 1 21000 ''0x23'']"

definition largeSells :: "op list" where
  "largeSells =
     [RecordSell \<lparr>now = 3, writable = True\<rparr> ''0xab'' ''CAKE'' 50 (15 / 100) 1 25000 ''0x34'',
      RecordSell \<lparr>now = 4, writable = True\<rparr> ''0xab'' ''CAKE'' (10 ^ 18) (20 / 100) 1 25000 ''0x45'']"

section \<open>Properties\<close>

subsection \<open>Loading the ledger\<close>

text \<open>
  Claim C8. \<^verbatim>\<open>getTradingHistory\<close> does not throw: where the file cannot be read,
  where its text cannot be parsed and where it parses to null, the result is the empty
  ledger, with no trades and a summary of zeros.
\<close>

theorem getTradingHistory_fail_open:
  "getTradingHistory NoFile =
     \<lparr>trades = [], summary = \<lparr>totalTrades = 0, totalProfit = 0, totalLoss = 0, winRate = 0\<rparr>\<rparr>
   \<and> getTradingHistory Garbage =
     \<lparr>trades = [], summary = \<lparr>totalTrades = 0, totalProfit = 0, totalLoss = 0, winRate = 0\<rparr>\<rparr>
   \<and> getTradingHistory (Document JNull) =
     \<lparr>trades = [], summary = \<lparr>totalTrades = 0, totalProfit = 0, totalLoss = 0, winRate = 0\<rparr>\<rparr>"
  by (simp add: emptyHistory_def emptySummary_def)

subsection \<open>The HOLDING lots of a token\<close>

lemma holdingAt_Some:
  "holdingAt a p = Some q
     \<longleftrightarrow> (\<exists>b. snd p = Buy b \<and> q = (fst p, b) \<and> tokenAddress b = a \<and> status b = HOLDING)"
  by (cases p; cases "snd p") auto

lemma set_map_filter_eq: "set (List.map_filter f xs) = {y. \<exists>x \<in> set xs. f x = Some y}"
  by (induction xs) (auto split: option.splits)

lemma set_holdingBuyTrades:
  "set (holdingBuyTrades a ts) =
     {(i, b). i < length ts \<and> ts ! i = Buy b \<and> tokenAddress b = a \<and> status b = HOLDING}"
proof -
  have "set (holdingBuyTrades a ts) = {q. \<exists>p. p \<in> set (enumerate 0 ts) \<and> holdingAt a p = Some q}"
    by (auto simp: holdingBuyTrades_def set_map_filter_eq)
  also have "\<dots> = {(i, b). i < length ts \<and> ts ! i = Buy b \<and> tokenAddress b = a \<and> status b = HOLDING}"
    by (auto simp: holdingAt_Some in_set_enumerate_eq)
  finally show ?thesis .
qed

lemma holdingBuyTrades_Nil:
  assumes "\<forall>b. Buy b \<in> set ts \<longrightarrow> \<not> (tokenAddress b = a \<and> status b = HOLDING)"
  shows "holdingBuyTrades a ts = []"
proof -
  have "set (holdingBuyTrades a ts) = {}"
    unfolding set_holdingBuyTrades using assms by (auto simp: in_set_conv_nth)
  then show ?thesis by simp
qed

text \<open>
  Claim C3. A sell of a token that has no HOLDING BUY record returns null and writes
  nothing: no SELL record is created and the store, so the trades and the summary, is
  the one before the call.
\<close>

theorem recordSellTrade_no_buy_record:
  assumes "\<forall>b. Buy b \<in> set (trades (getTradingHistory st))
             \<longrightarrow> \<not> (tokenAddress b = toLowerCase tokenAddr \<and> status b = HOLDING)"
  shows "recordSellTrade e tokenAddr tokenSym tokenAmt bnbRecv bnbPr gasU txH st = Inr (None, st)"
  using holdingBuyTrades_Nil [OF assms] by (simp add: recordSellTrade_def)

theorem recordSellTrade_no_buy_record_witness:
  "recordSellTrade \<lparr>now = 7, writable = True\<rparr> ''0xab'' ''CAKE'' 50 (3 / 20) 1 25000 ''0x34''
     initialStore = Inr (None, initialStore)
   \<and> getTradingHistory initialStore = emptyHistory"
proof -
  have "\<forall>b. Buy b \<in> set (trades (getTradingHistory initialStore))
          \<longrightarrow> \<not> (tokenAddress b = toLowerCase ''0xab'' \<and> status b = HOLDING)"
    by (simp add: initialStore_def saved_def emptyHistory_def)
  from recordSellTrade_no_buy_record [OF this]
  show ?thesis by (simp add: initialStore_def saved_def emptyHistory_def)
qed

subsection \<open>The loop of recordSellTrade\<close>

lemma sell_loop_break: "remainingTokensToSell ls \<le> 0 \<Longrightarrow> sell_loop ps ls = Inr ls"
  by (cases ps) auto

lemma consumeLot_Inr:
  assumes "consumeLot r b = Inr (f, b')"
  shows "tokenAmount b \<noteq> 0"
    and "f = \<lparr>used_id = buy_id b, tokensUsed = min r (tokenAmount b),
              costUsed = bnbAmount b * (min r (tokenAmount b) / tokenAmount b),
              used_gas = gasUsed b * (min r (tokenAmount b) / tokenAmount b)\<rparr>"
    and "b' = (if tokenAmount b \<le> min r (tokenAmount b) then b\<lparr>status := SOLD\<rparr>
               else b\<lparr>tokenAmount := tokenAmount b - min r (tokenAmount b),
                      bnbAmount := bnbAmount b - bnbAmount b * (min r (tokenAmount b) / tokenAmount b),
                      gasUsed := gasUsed b - gasUsed b * (min r (tokenAmount b) / tokenAmount b)\<rparr>)"
  using assms by (auto simp: consumeLot_def Let_def split: if_splits)

lemma consumeLot_total: "tokenAmount b \<noteq> 0 \<Longrightarrow> \<exists>f b'. consumeLot r b = Inr (f, b')"
  by (simp add: consumeLot_def Let_def)

text \<open>
  The loop of the source, which mutates the records of the ledger while it runs, hands
  out the fragments of the walk of the specification, and its totals are their sums.
\<close>

lemma sell_loop_fragments:
  assumes "sell_loop ps ls = Inr ls'"
  shows "processedBuyTrades ls' =
           processedBuyTrades ls @ specFragments (remainingTokensToSell ls) (map snd ps)
       \<and> l_totalCost ls' = l_totalCost ls
           + sum_list (map costUsed (specFragments (remainingTokensToSell ls) (map snd ps)))
       \<and> l_totalGasUsed ls' = l_totalGasUsed ls
           + sum_list (map used_gas (specFragments (remainingTokensToSell ls) (map snd ps)))
       \<and> remainingTokensToSell ls' = remainingTokensToSell ls
           - sum_list (map tokensUsed (specFragments (remainingTokensToSell ls) (map snd ps)))"
  using assms
proof (induction ps arbitrary: ls)
  case Nil
  then show ?case by simp
next
  case (Cons p ps)
  obtain i b where p: "p = (i, b)" by (cases p)
  show ?case
  proof (cases "remainingTokensToSell ls \<le> 0")
    case True
    with Cons.prems p show ?thesis by simp
  next
    case False
    with Cons.prems p obtain f b' where c: "consumeLot (remainingTokensToSell ls) b = Inr (f, b')"
      by (auto split: sum.splits)
    let ?ls1 = "\<lparr>l_trades = (l_trades ls)[i := Buy b'],
             remainingTokensToSell = remainingTokensToSell ls - tokensUsed f,
             l_totalCost = l_totalCost ls + costUsed f,
             l_totalGasUsed = l_totalGasUsed ls + used_gas f,
             processedBuyTrades = processedBuyTrades ls @ [f]\<rparr>"
    from Cons.prems p False c have "sell_loop ps ?ls1 = Inr ls'" by simp
    from Cons.IH [OF this] consumeLot_Inr(2) [OF c] False p
    show ?thesis by simp
  qed
qed

lemma sell_loop_total:
  assumes "\<forall>p \<in> set ps. tokenAmount (snd p) \<noteq> 0"
  shows "\<exists>ls'. sell_loop ps ls = Inr ls'"
  using assms
proof (induction ps arbitrary: ls)
  case Nil
  then show ?case by simp
next
  case (Cons p ps)
  obtain i b where p: "p = (i, b)" by (cases p)
  with Cons.prems have "tokenAmount b \<noteq> 0" by simp
  from consumeLot_total [OF this] obtain f b' where
    "consumeLot (remainingTokensToSell ls) b = Inr (f, b')" by blast
  with Cons.IH Cons.prems p show ?case by simp
qed

lemma specFragments_proportional:
  "list_all2 (\<lambda>f b. used_id f = buy_id b
       \<and> costUsed f = bnbAmount b * (tokensUsed f / tokenAmount b)
       \<and> used_gas f = gasUsed b * (tokensUsed f / tokenAmount b))
     (specFragments r bs) (take (length (specFragments r bs)) bs)"
  by (induction bs arbitrary: r) auto



lemma sell_loop_processed_mono:
  "sell_loop ps ls = Inr ls' \<Longrightarrow> set (processedBuyTrades ls) \<subseteq> set (processedBuyTrades ls')"
  using sell_loop_fragments [of ps ls ls'] by auto

text \<open>
  The lots that the loop receives are records of the ledger at distinct positions; the
  loop leaves every other position as it was.
\<close>

lemma distinct_map_insort_key:
  "distinct (map g (insort_key k x xs)) \<longleftrightarrow> g x \<notin> g ` set xs \<and> distinct (map g xs)"
  by (induction xs) (auto simp: set_insort_key)

lemma distinct_map_sort_key: "distinct (map g (sort_key k xs)) \<longleftrightarrow> distinct (map g xs)"
  by (induction xs) (auto simp: distinct_map_insort_key)

lemma map_fst_map_filter_holdingAt:
  "map fst (List.map_filter (holdingAt a) xs) = map fst (filter (\<lambda>p. holdingAt a p \<noteq> None) xs)"
proof (induction xs)
  case Nil
  show ?case by simp
next
  case (Cons p xs)
  show ?case
  proof (cases "holdingAt a p")
    case None
    with Cons show ?thesis by simp
  next
    case (Some q)
    then have "fst q = fst p" by (auto simp: holdingAt_Some)
    with Some Cons show ?thesis by simp
  qed
qed

lemma distinct_holdingBuyTrades: "distinct (map fst (holdingBuyTrades a ts))"
proof -
  have "distinct (map fst (enumerate 0 ts))" by (simp add: map_fst_enumerate)
  then have "distinct (map fst (filter (\<lambda>p. holdingAt a p \<noteq> None) (enumerate 0 ts)))"
    by (rule distinct_map_filter)
  then show ?thesis
    by (simp add: holdingBuyTrades_def distinct_map_sort_key map_fst_map_filter_holdingAt)
qed


lemma sell_loop_trades:
  assumes "sell_loop ps ls = Inr ls'"
    and "distinct (map fst ps)"
    and "\<forall>(i, b) \<in> set ps. i < length (l_trades ls) \<and> l_trades ls ! i = Buy b"
  shows "length (l_trades ls') = length (l_trades ls)
     \<and> (\<forall>j. j \<notin> fst ` set ps \<longrightarrow> l_trades ls' ! j = l_trades ls ! j)
     \<and> (\<forall>(i, b) \<in> set ps. l_trades ls' ! i = Buy b
           \<or> (\<exists>r f b'. 0 < r \<and> consumeLot r b = Inr (f, b') \<and> l_trades ls' ! i = Buy b'
                 \<and> f \<in> set (processedBuyTrades ls')))"
  using assms
proof (induction ps arbitrary: ls)
  case Nil
  then show ?case by simp
next
  case (Cons p ps)
  obtain i b where p: "p = (i, b)" by (cases p)
  show ?case
  proof (cases "remainingTokensToSell ls \<le> 0")
    case True
    with Cons.prems(1) have "ls' = ls" by (simp add: sell_loop_break)
    with Cons.prems show ?thesis by auto
  next
    case False
    with Cons.prems(1) p obtain f b' where c: "consumeLot (remainingTokensToSell ls) b = Inr (f, b')"
      by (auto split: sum.splits)
    let ?ls1 = "\<lparr>l_trades = (l_trades ls)[i := Buy b'],
             remainingTokensToSell = remainingTokensToSell ls - tokensUsed f,
             l_totalCost = l_totalCost ls + costUsed f,
             l_totalGasUsed = l_totalGasUsed ls + used_gas f,
             processedBuyTrades = processedBuyTrades ls @ [f]\<rparr>"
    from Cons.prems(1) p False c have loop: "sell_loop ps ?ls1 = Inr ls'" by simp
    from Cons.prems(2) p have d: "distinct (map fst ps)" and ni: "i \<notin> fst ` set ps" by auto
    from Cons.prems(3) p have il: "i < length (l_trades ls)" by simp
    have pre: "\<forall>(j, c) \<in> set ps. j < length (l_trades ?ls1) \<and> l_trades ?ls1 ! j = Buy c"
    proof clarify
      fix j c
      assume jc: "(j, c) \<in> set ps"
      with ni have "j \<noteq> i" by force
      moreover from Cons.prems(3) jc have "j < length (l_trades ls)" "l_trades ls ! j = Buy c"
        by auto
      ultimately show "j < length (l_trades ?ls1) \<and> l_trades ?ls1 ! j = Buy c" by simp
    qed
    from Cons.IH [OF loop d pre] have
      len: "length (l_trades ls') = length (l_trades ls)"
      and same: "\<And>j. j \<notin> fst ` set ps \<Longrightarrow> l_trades ls' ! j = (l_trades ls)[i := Buy b'] ! j"
      and rest: "\<forall>(j, c) \<in> set ps. l_trades ls' ! j = Buy c
           \<or> (\<exists>r f b'. 0 < r \<and> consumeLot r c = Inr (f, b') \<and> l_trades ls' ! j = Buy b'
                 \<and> f \<in> set (processedBuyTrades ls'))"
      by simp_all
    have fin: "f \<in> set (processedBuyTrades ls')"
      using sell_loop_processed_mono [OF loop] by auto
    have here: "l_trades ls' ! i = Buy b'" using same [OF ni] il by simp
    have other: "\<forall>j. j \<notin> fst ` set (p # ps) \<longrightarrow> l_trades ls' ! j = l_trades ls ! j"
      using same p by auto
    have first: "\<exists>r f b'. 0 < r \<and> consumeLot r b = Inr (f, b') \<and> l_trades ls' ! i = Buy b'
                 \<and> f \<in> set (processedBuyTrades ls')"
      using False c here fin by (intro exI [of _ "remainingTokensToSell ls"] exI [of _ f] exI [of _ b']) simp
    from len other first rest p show ?thesis by simp
  qed
qed

lemma consumeLot_cases:
  assumes "0 < r" "consumeLot r b = Inr (f, b')"
  shows "used_id f = buy_id b \<and> buy_id b' = buy_id b \<and> timestamp b' = timestamp b
     \<and> tokenAddress b' = tokenAddress b
     \<and> ((tokensUsed f = tokenAmount b \<and> b' = b\<lparr>status := SOLD\<rparr>)
        \<or> (tokensUsed f = tokenAmount b - tokenAmount b' \<and> status b' = status b
            \<and> 0 < tokenAmount b' \<and> tokenAmount b' < tokenAmount b
            \<and> (0 < bnbAmount b \<longrightarrow> 0 < bnbAmount b' \<and> bnbAmount b' < bnbAmount b)
            \<and> (0 < gasUsed b \<longrightarrow> 0 < gasUsed b' \<and> gasUsed b' < gasUsed b)))"
proof (cases "tokenAmount b \<le> min r (tokenAmount b)")
  case True
  then have "min r (tokenAmount b) = tokenAmount b" by simp
  with consumeLot_Inr [OF assms(2)] True show ?thesis by simp
next
  case False
  then have m: "min r (tokenAmount b) = r" and lt: "r < tokenAmount b" by simp_all
  define q where "q = r / tokenAmount b"
  have q: "0 < q" "q < 1" using assms(1) lt by (simp_all add: q_def)
  have scale: "0 < x - x * q \<and> x - x * q < x" if "0 < x" for x :: rat
  proof -
    have "x * q < x * 1" using that q by (intro mult_strict_left_mono) simp_all
    moreover have "0 < x * q" using that q by simp
    ultimately show ?thesis by simp
  qed
  from consumeLot_Inr [OF assms(2)] False m
  have f: "tokensUsed f = r" "used_id f = buy_id b"
    and b': "b' = b\<lparr>tokenAmount := tokenAmount b - r, bnbAmount := bnbAmount b - bnbAmount b * q,
                   gasUsed := gasUsed b - gasUsed b * q\<rparr>"
    by (simp_all add: q_def)
  show ?thesis using f b' assms(1) lt scale [of "bnbAmount b"] scale [of "gasUsed b"] by simp
qed

subsection \<open>What a recorded sell is\<close>

lemma recordSellTrade_Some:
  assumes "recordSellTrade e a sy amt recv pr gas tx st = Inr (Some info, st')"
  obtains ls where
    "holdingBuyTrades (toLowerCase a) (trades (getTradingHistory st)) \<noteq> []"
    "sell_loop (holdingBuyTrades (toLowerCase a) (trades (getTradingHistory st)))
       \<lparr>l_trades = trades (getTradingHistory st), remainingTokensToSell = amt, l_totalCost = 0,
        l_totalGasUsed = gas, processedBuyTrades = []\<rparr> = Inr ls"
    "writable e"
    "info = \<lparr>r_sellTradeId = now e, r_profit = recv - l_totalCost ls,
             r_profitPercentage = (if l_totalCost ls = 0 then None
                                   else Some ((recv - l_totalCost ls) / l_totalCost ls * 100)),
             r_totalCost = l_totalCost ls, r_revenue = recv\<rparr>"
    "trades (getTradingHistory st') = l_trades ls @
       [Sell \<lparr>sell_id = now e, sell_tokenAddress = toLowerCase a,
              sell_tokenSymbol = sy, sell_tokenAmount = amt,
              bnbReceived = recv, sell_bnbPrice = pr,
              sell_gasUsed = l_totalGasUsed ls, sell_timestamp = now e,
              sell_txHash = tx, totalCost = l_totalCost ls, profit = recv - l_totalCost ls,
              profitPercentage = (if l_totalCost ls = 0 then None
                                   else Some ((recv - l_totalCost ls) / l_totalCost ls * 100)),
              buyTradesUsed = processedBuyTrades ls\<rparr>]"
    "summary (getTradingHistory st') =
       updateSummary (summary (getTradingHistory st)) (recv - l_totalCost ls)
         (trades (getTradingHistory st'))"
  using assms
  by (auto simp: recordSellTrade_def Let_def saved_def split: if_splits sum.splits)

lemma recordSellTrade_total:
  assumes "holdingBuyTrades (toLowerCase a) (trades (getTradingHistory st)) \<noteq> []"
    and "\<forall>p \<in> set (holdingBuyTrades (toLowerCase a) (trades (getTradingHistory st))).
           tokenAmount (snd p) \<noteq> 0"
    and "writable e"
  shows "\<exists>info st'. recordSellTrade e a sy amt recv pr gas tx st = Inr (Some info, st')"
proof -
  from sell_loop_total [OF assms(2)] obtain ls where
    "sell_loop (holdingBuyTrades (toLowerCase a) (trades (getTradingHistory st)))
       \<lparr>l_trades = trades (getTradingHistory st), remainingTokensToSell = amt, l_totalCost = 0,
        l_totalGasUsed = gas, processedBuyTrades = []\<rparr> = Inr ls" by blast
  with assms(1,3) show ?thesis by (simp add: recordSellTrade_def Let_def)
qed

lemma lastSell_snoc:
  "trades (getTradingHistory st) = ts @ [Sell s] \<Longrightarrow> lastSell st = Some s"
  by (simp add: lastSell_def)

lemma trades_saved: "trades (getTradingHistory (saved h)) = trades h"
  by (simp add: saved_def)

subsection \<open>The scenarios, evaluated\<close>

lemma toLowerCase_0xab: "toLowerCase ''0xab'' = ''0xab''"
  by (simp add: toLowerCase_def lower_char_def)

lemma scenarioStore_eq:
  "scenarioStore = saved \<lparr>trades =
      [Buy \<lparr>buy_id = 1, tokenAddress = ''0xab'', tokenSymbol = ''CAKE'', bnbAmount = 1 / 10,
            tokenAmount = 100, bnbPrice = 1, gasUsed = 21000, timestamp = 1, txHash = ''0x12'',
            status = HOLDING\<rparr>,
       Buy \<lparr>buy_id = 2, tokenAddress = ''0xab'', tokenSymbol = ''CAKE'', bnbAmount = 1 / 5,
            tokenAmount = 6667 / 100, bnbPrice = 1, gasUsed = 21000, timestamp = 2, txHash = ''0x23'',
            status = HOLDING\<rparr>],
     summary = \<lparr>totalTrades = 2, totalProfit = 0, totalLoss = 0, winRate = 0\<rparr>\<rparr>"
  by (simp add: scenarioStore_def recordBuyTrade_def initialStore_def saved_def emptyHistory_def
      emptySummary_def toLowerCase_def lower_char_def Let_def)

lemma scenarioStore_lots:
  "scenarioStore = saved \<lparr>trades = [Buy lotA, Buy lotB],
     summary = \<lparr>totalTrades = 2, totalProfit = 0, totalLoss = 0, winRate = 0\<rparr>\<rparr>"
  by (simp add: scenarioStore_eq lotA_def lotB_def)

lemma oneLotStore_eq:
  "oneLotStore = saved \<lparr>trades = [Buy lotA],
     summary = \<lparr>totalTrades = 1, totalProfit = 0, totalLoss = 0, winRate = 0\<rparr>\<rparr>"
  by (simp add: oneLotStore_def recordBuyTrade_def initialStore_def saved_def emptyHistory_def
      emptySummary_def toLowerCase_0xab Let_def lotA_def)

lemma zeroGasStore_eq:
  "zeroGasStore = saved \<lparr>trades = [Buy (lotA\<lparr>gasUsed := 0\<rparr>)],
     summary = \<lparr>totalTrades = 1, totalProfit = 0, totalLoss = 0, winRate = 0\<rparr>\<rparr>"
  by (simp add: zeroGasStore_def recordBuyTrade_def initialStore_def saved_def emptyHistory_def
      emptySummary_def toLowerCase_0xab Let_def lotA_def)

lemma scenario_holding:
  "holdingBuyTrades (toLowerCase ''0xab'') (trades (getTradingHistory scenarioStore))
     = [(0, lotA), (1, lotB)]"
  by (simp add: scenarioStore_lots trades_saved holdingBuyTrades_def toLowerCase_0xab
      enumerate_eq_zip lotA_def lotB_def)


lemma scenario_sell:
  "recordSellTrade \<lparr>now = 3, writable = True\<rparr> ''0xab'' ''CAKE'' 50 (14 / 100) 1 25000 ''0x34'' scenarioStore
   = Inr (Some \<lparr>r_sellTradeId = 3, r_profit = 9 / 100, r_profitPercentage = Some 180,
                r_totalCost = 5 / 100, r_revenue = 14 / 100\<rparr>,
     saved \<lparr>trades =
      [Buy \<lparr>buy_id = 1, tokenAddress = ''0xab'', tokenSymbol = ''CAKE'', bnbAmount = 5 / 100,
            tokenAmount = 50, bnbPrice = 1, gasUsed = 10500, timestamp = 1, txHash = ''0x12'',
            status = HOLDING\<rparr>,
       Buy \<lparr>buy_id = 2, tokenAddress = ''0xab'', tokenSymbol = ''CAKE'', bnbAmount = 1 / 5,
            tokenAmount = 6667 / 100, bnbPrice = 1, gasUsed = 21000, timestamp = 2, txHash = ''0x23'',
            status = HOLDING\<rparr>,
       Sell \<lparr>sell_id = 3, sell_tokenAddress = ''0xab'', sell_tokenSymbol = ''CAKE'',
             sell_tokenAmount = 50, bnbReceived = 14 / 100, sell_bnbPrice = 1, sell_gasUsed = 35500,
             sell_timestamp = 3, sell_txHash = ''0x34'', totalCost = 5 / 100, profit = 9 / 100,
             profitPercentage = Some 180,
             buyTradesUsed = [\<lparr>used_id = 1, tokensUsed = 50, costUsed = 5 / 100, used_gas = 10500\<rparr>]\<rparr>],
     summary = \<lparr>totalTrades = 3, totalProfit = 9 / 100, totalLoss = 0, winRate = 100\<rparr>\<rparr>)"
  by (simp add: scenarioStore_eq recordSellTrade_def holdingBuyTrades_def saved_def
      toLowerCase_def lower_char_def Let_def enumerate_eq_zip consumeLot_def updateSummary_def)

lemma oneLot_sell_all:
  "recordSellTrade \<lparr>now = 3, writable = True\<rparr> ''0xab'' ''CAKE'' 100 (14 / 100) 1 25000 ''0x34''
     oneLotStore
   = Inr (Some \<lparr>r_sellTradeId = 3, r_profit = 4 / 100, r_profitPercentage = Some 40,
                r_totalCost = 10 / 100, r_revenue = 14 / 100\<rparr>,
     saved \<lparr>trades =
      [Buy (lotA\<lparr>status := SOLD\<rparr>),
       Sell \<lparr>sell_id = 3, sell_tokenAddress = ''0xab'', sell_tokenSymbol = ''CAKE'',
             sell_tokenAmount = 100, bnbReceived = 14 / 100, sell_bnbPrice = 1, sell_gasUsed = 46000,
             sell_timestamp = 3, sell_txHash = ''0x34'', totalCost = 10 / 100, profit = 4 / 100,
             profitPercentage = Some 40,
             buyTradesUsed = [\<lparr>used_id = 1, tokensUsed = 100, costUsed = 10 / 100, used_gas = 21000\<rparr>]\<rparr>],
     summary = \<lparr>totalTrades = 2, totalProfit = 4 / 100, totalLoss = 0, winRate = 100\<rparr>\<rparr>)"
  by (simp add: oneLotStore_eq recordSellTrade_def holdingBuyTrades_def saved_def
      toLowerCase_0xab Let_def enumerate_eq_zip consumeLot_def updateSummary_def lotA_def)

lemma zeroGas_sell_half:
  "recordSellTrade \<lparr>now = 3, writable = True\<rparr> ''0xab'' ''CAKE'' 50 (14 / 100) 1 25000 ''0x34''
     zeroGasStore
   = Inr (Some \<lparr>r_sellTradeId = 3, r_profit = 9 / 100, r_profitPercentage = Some 180,
                r_totalCost = 5 / 100, r_revenue = 14 / 100\<rparr>,
     saved \<lparr>trades =
      [Buy (lotA\<lparr>tokenAmount := 50, bnbAmount := 5 / 100, gasUsed := 0\<rparr>),
       Sell \<lparr>sell_id = 3, sell_tokenAddress = ''0xab'', sell_tokenSymbol = ''CAKE'',
             sell_tokenAmount = 50, bnbReceived = 14 / 100, sell_bnbPrice = 1, sell_gasUsed = 25000,
             sell_timestamp = 3, sell_txHash = ''0x34'', totalCost = 5 / 100, profit = 9 / 100,
             profitPercentage = Some 180,
             buyTradesUsed = [\<lparr>used_id = 1, tokensUsed = 50, costUsed = 5 / 100, used_gas = 0\<rparr>]\<rparr>],
     summary = \<lparr>totalTrades = 2, totalProfit = 9 / 100, totalLoss = 0, winRate = 100\<rparr>\<rparr>)"
  by (simp add: zeroGasStore_eq recordSellTrade_def holdingBuyTrades_def saved_def
      toLowerCase_0xab Let_def enumerate_eq_zip consumeLot_def updateSummary_def lotA_def)

subsection \<open>Proportional cost\<close>

text \<open>
  Claim C1. Every fragment of a recorded sell is taken from a HOLDING lot of the token,
  in the order of the sorted lots, and its cost is the lot's \<^verbatim>\<open>bnbAmount\<close> times
  \<^verbatim>\<open>tokensUsed / tokenAmount\<close>, its gas the lot's \<^verbatim>\<open>gasUsed\<close> times the same ratio;
  the total cost of the sell is the sum of the fragments' costs. In the scenario, the sell
  of 50 tokens for 0.14 takes 50 tokens from lot A only, with cost basis 0.05, profit 0.09
  and profit percentage 180.
\<close>

theorem sell_cost_proportional:
  "(recordSellTrade e a sy amt recv pr gas tx st = Inr (Some info, st') \<longrightarrow>
      (\<exists>s. lastSell st' = Some s
         \<and> list_all2 (\<lambda>f b. used_id f = buy_id b
               \<and> costUsed f = bnbAmount b * (tokensUsed f / tokenAmount b)
               \<and> used_gas f = gasUsed b * (tokensUsed f / tokenAmount b))
             (buyTradesUsed s)
             (take (length (buyTradesUsed s))
                (map snd (holdingBuyTrades (toLowerCase a) (trades (getTradingHistory st)))))
         \<and> totalCost s = sum_list (map costUsed (buyTradesUsed s))
         \<and> sell_gasUsed s = gas + sum_list (map used_gas (buyTradesUsed s))
         \<and> r_totalCost info = totalCost s \<and> r_profit info = recv - totalCost s))
   \<and> (\<exists>st2. recordSellTrade \<lparr>now = 3, writable = True\<rparr> ''0xab'' ''CAKE'' 50 (14 / 100) 1 25000
                ''0x34'' scenarioStore
              = Inr (Some \<lparr>r_sellTradeId = 3, r_profit = 9 / 100, r_profitPercentage = Some 180,
                           r_totalCost = 5 / 100, r_revenue = 14 / 100\<rparr>, st2)
         \<and> map_option buyTradesUsed (lastSell st2)
              = Some [\<lparr>used_id = 1, tokensUsed = 50, costUsed = 5 / 100, used_gas = 10500\<rparr>])"
proof (intro conjI impI)
  assume r: "recordSellTrade e a sy amt recv pr gas tx st = Inr (Some info, st')"
  let ?lots = "map snd (holdingBuyTrades (toLowerCase a) (trades (getTradingHistory st)))"
  from r obtain ls s where
    loop: "sell_loop (holdingBuyTrades (toLowerCase a) (trades (getTradingHistory st)))
       \<lparr>l_trades = trades (getTradingHistory st), remainingTokensToSell = amt, l_totalCost = 0,
        l_totalGasUsed = gas, processedBuyTrades = []\<rparr> = Inr ls"
    and info: "r_totalCost info = l_totalCost ls" "r_profit info = recv - l_totalCost ls"
    and ts: "trades (getTradingHistory st') = l_trades ls @ [Sell s]"
    and s: "buyTradesUsed s = processedBuyTrades ls" "totalCost s = l_totalCost ls"
           "sell_gasUsed s = l_totalGasUsed ls"
    by (rule recordSellTrade_Some) auto
  from sell_loop_fragments [OF loop] have
    fr: "processedBuyTrades ls = specFragments amt ?lots"
    and co: "l_totalCost ls = sum_list (map costUsed (specFragments amt ?lots))"
    and ga: "l_totalGasUsed ls = gas + sum_list (map used_gas (specFragments amt ?lots))"
    by simp_all
  have "list_all2 (\<lambda>f b. used_id f = buy_id b
               \<and> costUsed f = bnbAmount b * (tokensUsed f / tokenAmount b)
               \<and> used_gas f = gasUsed b * (tokensUsed f / tokenAmount b))
             (buyTradesUsed s) (take (length (buyTradesUsed s)) ?lots)"
    unfolding s fr by (rule specFragments_proportional)
  with lastSell_snoc [OF ts] s fr co ga info
  show "\<exists>s. lastSell st' = Some s
         \<and> list_all2 (\<lambda>f b. used_id f = buy_id b
               \<and> costUsed f = bnbAmount b * (tokensUsed f / tokenAmount b)
               \<and> used_gas f = gasUsed b * (tokensUsed f / tokenAmount b))
             (buyTradesUsed s) (take (length (buyTradesUsed s)) ?lots)
         \<and> totalCost s = sum_list (map costUsed (buyTradesUsed s))
         \<and> sell_gasUsed s = gas + sum_list (map used_gas (buyTradesUsed s))
         \<and> r_totalCost info = totalCost s \<and> r_profit info = recv - totalCost s"
    by auto
next
  show "\<exists>st2. recordSellTrade \<lparr>now = 3, writable = True\<rparr> ''0xab'' ''CAKE'' 50 (14 / 100) 1 25000
                ''0x34'' scenarioStore
              = Inr (Some \<lparr>r_sellTradeId = 3, r_profit = 9 / 100, r_profitPercentage = Some 180,
                           r_totalCost = 5 / 100, r_revenue = 14 / 100\<rparr>, st2)
         \<and> map_option buyTradesUsed (lastSell st2)
              = Some [\<lparr>used_id = 1, tokensUsed = 50, costUsed = 5 / 100, used_gas = 10500\<rparr>]"
    unfolding scenario_sell by (simp add: lastSell_def saved_def)
qed

theorem sell_cost_proportional_witness:
  "\<exists>s. lastSell (saved \<lparr>trades =
      [Buy \<lparr>buy_id = 1, tokenAddress = ''0xab'', tokenSymbol = ''CAKE'', bnbAmount = 5 / 100,
            tokenAmount = 50, bnbPrice = 1, gasUsed = 10500, timestamp = 1, txHash = ''0x12'',
            status = HOLDING\<rparr>,
       Buy \<lparr>buy_id = 2, tokenAddress = ''0xab'', tokenSymbol = ''CAKE'', bnbAmount = 1 / 5,
            tokenAmount = 6667 / 100, bnbPrice = 1, gasUsed = 21000, timestamp = 2, txHash = ''0x23'',
            status = HOLDING\<rparr>,
       Sell \<lparr>sell_id = 3, sell_tokenAddress = ''0xab'', sell_tokenSymbol = ''CAKE'',
             sell_tokenAmount = 50, bnbReceived = 14 / 100, sell_bnbPrice = 1, sell_gasUsed = 35500,
             sell_timestamp = 3, sell_txHash = ''0x34'', totalCost = 5 / 100, profit = 9 / 100,
             profitPercentage = Some 180,
             buyTradesUsed = [\<lparr>used_id = 1, tokensUsed = 50, costUsed = 5 / 100, used_gas = 10500\<rparr>]\<rparr>],
     summary = \<lparr>totalTrades = 3, totalProfit = 9 / 100, totalLoss = 0, winRate = 100\<rparr>\<rparr>) = Some s
    \<and> totalCost s = sum_list (map costUsed (buyTradesUsed s))
    \<and> sell_gasUsed s = 25000 + sum_list (map used_gas (buyTradesUsed s))"
  using sell_cost_proportional [THEN conjunct1, rule_format, OF scenario_sell]
  by blast

subsection \<open>FIFO order\<close>



subsection \<open>The lots after a sell\<close>

lemma consumeLot_lotAfter: "consumeLot r b = Inr (f, b') \<Longrightarrow> b' = lotAfter f b"
  by (auto simp: consumeLot_def lotAfter_def Let_def split: if_splits)

lemma length_specFragments: "length (specFragments r bs) \<le> length bs"
  by (induction bs arbitrary: r) auto

lemma specFragments_Cons:
  "0 < r \<Longrightarrow> consumeLot r b = Inr (f, b') \<Longrightarrow>
   specFragments r (b # bs) = f # specFragments (r - tokensUsed f) bs"
  using consumeLot_Inr(2) [of r b f b'] by simp

lemma sell_loop_effect:
  assumes "sell_loop ps ls = Inr ls'"
    and "distinct (map fst ps)"
    and "\<forall>(i, b) \<in> set ps. i < length (l_trades ls) \<and> l_trades ls ! i = Buy b"
    and "fs = specFragments (remainingTokensToSell ls) (map snd ps)"
  shows "(\<forall>j < length fs. l_trades ls' ! fst (ps ! j) = Buy (lotAfter (fs ! j) (snd (ps ! j))))
     \<and> (\<forall>i. i \<notin> fst ` set (take (length fs) ps) \<longrightarrow> l_trades ls' ! i = l_trades ls ! i)"
  using assms
proof (induction ps arbitrary: ls fs)
  case Nil
  then show ?case by simp
next
  case (Cons p ps)
  obtain i b where p: "p = (i, b)" by (cases p)
  show ?case
  proof (cases "remainingTokensToSell ls \<le> 0")
    case True
    with Cons.prems(1) have "ls' = ls" by (simp add: sell_loop_break)
    moreover from True Cons.prems(4) p have "fs = []" by simp
    ultimately show ?thesis by simp
  next
    case False
    with Cons.prems(1) p obtain f b' where c: "consumeLot (remainingTokensToSell ls) b = Inr (f, b')"
      by (auto split: sum.splits)
    let ?ls1 = "\<lparr>l_trades = (l_trades ls)[i := Buy b'],
             remainingTokensToSell = remainingTokensToSell ls - tokensUsed f,
             l_totalCost = l_totalCost ls + costUsed f,
             l_totalGasUsed = l_totalGasUsed ls + used_gas f,
             processedBuyTrades = processedBuyTrades ls @ [f]\<rparr>"
    let ?fs1 = "specFragments (remainingTokensToSell ls - tokensUsed f) (map snd ps)"
    from Cons.prems(1) p False c have loop: "sell_loop ps ?ls1 = Inr ls'" by simp
    from Cons.prems(2) p have d: "distinct (map fst ps)" and ni: "i \<notin> fst ` set ps" by auto
    from Cons.prems(3) p have il: "i < length (l_trades ls)" by simp
    have pre: "\<forall>(j, c) \<in> set ps. j < length (l_trades ?ls1) \<and> l_trades ?ls1 ! j = Buy c"
    proof clarify
      fix j c
      assume jc: "(j, c) \<in> set ps"
      with ni have "j \<noteq> i" by force
      moreover from Cons.prems(3) jc have "j < length (l_trades ls)" "l_trades ls ! j = Buy c"
        by auto
      ultimately show "j < length (l_trades ?ls1) \<and> l_trades ?ls1 ! j = Buy c" by simp
    qed
    have fs: "fs = f # ?fs1"
      using Cons.prems(4) p False specFragments_Cons [OF _ c, of "map snd ps"] by simp
    from Cons.IH [OF loop d pre, of ?fs1] have
      ih1: "\<And>j. j < length ?fs1 \<Longrightarrow>
              l_trades ls' ! fst (ps ! j) = Buy (lotAfter (?fs1 ! j) (snd (ps ! j)))"
      and ih2: "\<And>k. k \<notin> fst ` set (take (length ?fs1) ps) \<Longrightarrow>
              l_trades ls' ! k = (l_trades ls)[i := Buy b'] ! k"
      by simp_all
    have "i \<notin> fst ` set (take (length ?fs1) ps)"
      using ni by (auto dest: in_set_takeD)
    from ih2 [OF this] il have here: "l_trades ls' ! i = Buy b'" by simp
    have first: "\<forall>j < length fs. l_trades ls' ! fst ((p # ps) ! j)
                    = Buy (lotAfter (fs ! j) (snd ((p # ps) ! j)))"
    proof (intro allI impI)
      fix j assume j: "j < length fs"
      show "l_trades ls' ! fst ((p # ps) ! j) = Buy (lotAfter (fs ! j) (snd ((p # ps) ! j)))"
      proof (cases j)
        case 0
        with here p fs consumeLot_lotAfter [OF c] show ?thesis by simp
      next
        case (Suc j')
        with j fs have "j' < length ?fs1" by simp
        from ih1 [OF this] Suc fs show ?thesis by simp
      qed
    qed
    have second: "\<forall>k. k \<notin> fst ` set (take (length fs) (p # ps))
                    \<longrightarrow> l_trades ls' ! k = l_trades ls ! k"
    proof (intro allI impI)
      fix k assume k: "k \<notin> fst ` set (take (length fs) (p # ps))"
      with fs p have "k \<noteq> i" "k \<notin> fst ` set (take (length ?fs1) ps)" by auto
      with ih2 [of k] show "l_trades ls' ! k = l_trades ls ! k" by simp
    qed
    from first second show ?thesis by blast
  qed
qed

lemma specFragments_lots:
  "list_all2 (\<lambda>f b. \<exists>q. 0 < q \<and> used_id f = buy_id b \<and> tokensUsed f = min q (tokenAmount b)
       \<and> costUsed f = bnbAmount b * (tokensUsed f / tokenAmount b)
       \<and> used_gas f = gasUsed b * (tokensUsed f / tokenAmount b))
     (specFragments r bs) (take (length (specFragments r bs)) bs)"
proof (induction bs arbitrary: r)
  case Nil
  show ?case by simp
next
  case (Cons b bs)
  show ?case
  proof (cases "r \<le> 0")
    case True
    then show ?thesis by simp
  next
    case False
    then have "0 < r" by simp
    with Cons [of "r - min r (tokenAmount b)"] show ?thesis by auto
  qed
qed

lemma lotAfter_cases:
  assumes "0 < q" "tokensUsed f = min q (tokenAmount b)"
    and "costUsed f = bnbAmount b * (tokensUsed f / tokenAmount b)"
    and "used_gas f = gasUsed b * (tokensUsed f / tokenAmount b)"
    and "status b = HOLDING"
  shows "(tokenAmount b \<le> tokensUsed f \<longrightarrow>
            tokensUsed f = tokenAmount b \<and> lotAfter f b = b\<lparr>status := SOLD\<rparr>)
     \<and> (tokensUsed f < tokenAmount b \<longrightarrow>
            0 < tokensUsed f
          \<and> lotAfter f b = b\<lparr>tokenAmount := tokenAmount b - tokensUsed f,
                               bnbAmount := bnbAmount b - costUsed f,
                               gasUsed := gasUsed b - used_gas f\<rparr>
          \<and> status (lotAfter f b) = HOLDING
          \<and> 0 < tokenAmount (lotAfter f b) \<and> tokenAmount (lotAfter f b) \<le> tokenAmount b
          \<and> (0 \<le> bnbAmount b \<longrightarrow>
                0 \<le> bnbAmount (lotAfter f b) \<and> bnbAmount (lotAfter f b) \<le> bnbAmount b)
          \<and> (0 \<le> gasUsed b \<longrightarrow>
                0 \<le> gasUsed (lotAfter f b) \<and> gasUsed (lotAfter f b) \<le> gasUsed b))"
proof (cases "tokenAmount b \<le> tokensUsed f")
  case True
  with assms(2) have "tokensUsed f = tokenAmount b" by simp
  with True show ?thesis by (simp add: lotAfter_def)
next
  case False
  with assms(1,2) have t: "tokensUsed f = q" "0 < q" "q < tokenAmount b" by simp_all
  define k where "k = q / tokenAmount b"
  have k: "0 \<le> k" "k \<le> 1" using t by (simp_all add: k_def)
  have scale: "0 \<le> x - x * k \<and> x - x * k \<le> x" if "0 \<le> x" for x :: rat
  proof -
    have "x * k \<le> x * 1" using that k by (intro mult_left_mono) simp_all
    moreover have "0 \<le> x * k" using that k by simp
    ultimately show ?thesis by simp
  qed
  have c: "costUsed f = bnbAmount b * k" and g: "used_gas f = gasUsed b * k"
    using assms(3,4) t by (simp_all add: k_def)
  show ?thesis
    using False t c g scale [of "bnbAmount b"] scale [of "gasUsed b"] assms(5)
    by (simp add: lotAfter_def)
qed

lemma scenario_sell_both:
  "recordSellTrade \<lparr>now = 3, writable = True\<rparr> ''0xab'' ''CAKE'' 150 (14 / 100) 1 25000 ''0x34''
     scenarioStore
   = Inr (Some \<lparr>r_sellTradeId = 3, r_profit = - (18333 / 166675),
                r_profitPercentage = Some (- (104760 / 2381)),
                r_totalCost = 16667 / 66670, r_revenue = 14 / 100\<rparr>,
     saved \<lparr>trades =
      [Buy (lotA\<lparr>status := SOLD\<rparr>),
       Buy (lotB\<lparr>tokenAmount := 1667 / 100, bnbAmount := 1667 / 33335,
                 gasUsed := 35007000 / 6667\<rparr>),
       Sell \<lparr>sell_id = 3, sell_tokenAddress = ''0xab'', sell_tokenSymbol = ''CAKE'',
             sell_tokenAmount = 150, bnbReceived = 14 / 100, sell_bnbPrice = 1,
             sell_gasUsed = 411682000 / 6667, sell_timestamp = 3, sell_txHash = ''0x34'',
             totalCost = 16667 / 66670, profit = - (18333 / 166675),
             profitPercentage = Some (- (104760 / 2381)),
             buyTradesUsed =
               [\<lparr>used_id = 1, tokensUsed = 100, costUsed = 1 / 10, used_gas = 21000\<rparr>,
                \<lparr>used_id = 2, tokensUsed = 50, costUsed = 1000 / 6667,
                   used_gas = 105000000 / 6667\<rparr>]\<rparr>],
     summary = \<lparr>totalTrades = 3, totalProfit = 0, totalLoss = 18333 / 166675, winRate = 0\<rparr>\<rparr>)"
  by (simp add: scenarioStore_eq recordSellTrade_def holdingBuyTrades_def saved_def
      toLowerCase_def lower_char_def Let_def enumerate_eq_zip consumeLot_def updateSummary_def
      lotA_def lotB_def)

text \<open>
  Claim C4, as the source has it. A recorded sell touches the first lots of the sorted
  list, one for each fragment of its SELL record and in that order, and leaves every
  other record of the ledger as it was. A lot whose token amount the fragment uses up is
  marked SOLD, and its \<^verbatim>\<open>tokenAmount\<close>, \<^verbatim>\<open>bnbAmount\<close> and \<^verbatim>\<open>gasUsed\<close> stay as
  they were. A lot of which the fragment uses less stays HOLDING: its
  \<^verbatim>\<open>tokenAmount\<close>, \<^verbatim>\<open>bnbAmount\<close> and \<^verbatim>\<open>gasUsed\<close> are the former ones less the
  tokens, the cost and the gas of the fragment; the token amount left is positive and not
  larger than before, and \<^verbatim>\<open>bnbAmount\<close> and \<^verbatim>\<open>gasUsed\<close>, where they were not
  negative, are not negative and not larger than before.
\<close>

theorem sell_lot_mutation:
  assumes "recordSellTrade e a sy amt recv pr gas tx st = Inr (Some info, st')"
    and "lots = holdingBuyTrades (toLowerCase a) (trades (getTradingHistory st))"
  shows "\<exists>s. lastSell st' = Some s
     \<and> length (buyTradesUsed s) \<le> length lots
     \<and> (\<forall>j < length (buyTradesUsed s).
          \<exists>i b f b'. lots ! j = (i, b) \<and> buyTradesUsed s ! j = f \<and> used_id f = buy_id b
            \<and> trades (getTradingHistory st') ! i = Buy b'
            \<and> (tokenAmount b \<le> tokensUsed f \<longrightarrow>
                  tokensUsed f = tokenAmount b \<and> b' = b\<lparr>status := SOLD\<rparr>)
            \<and> (tokensUsed f < tokenAmount b \<longrightarrow>
                  0 < tokensUsed f
                \<and> b' = b\<lparr>tokenAmount := tokenAmount b - tokensUsed f,
                           bnbAmount := bnbAmount b - costUsed f,
                           gasUsed := gasUsed b - used_gas f\<rparr>
                \<and> status b' = HOLDING
                \<and> 0 < tokenAmount b' \<and> tokenAmount b' \<le> tokenAmount b
                \<and> (0 \<le> bnbAmount b \<longrightarrow> 0 \<le> bnbAmount b' \<and> bnbAmount b' \<le> bnbAmount b)
                \<and> (0 \<le> gasUsed b \<longrightarrow> 0 \<le> gasUsed b' \<and> gasUsed b' \<le> gasUsed b)))
     \<and> (\<forall>i < length (trades (getTradingHistory st)).
          i \<notin> fst ` set (take (length (buyTradesUsed s)) lots) \<longrightarrow>
          trades (getTradingHistory st') ! i = trades (getTradingHistory st) ! i)"
proof -
  let ?ts = "trades (getTradingHistory st)"
  let ?init = "\<lparr>l_trades = ?ts, remainingTokensToSell = amt, l_totalCost = 0,
        l_totalGasUsed = gas, processedBuyTrades = []\<rparr>"
  from assms obtain ls s where
    loop: "sell_loop lots ?init = Inr ls"
    and ts: "trades (getTradingHistory st') = l_trades ls @ [Sell s]"
    and s: "buyTradesUsed s = processedBuyTrades ls"
    by (auto elim!: recordSellTrade_Some)
  let ?fs = "specFragments amt (map snd lots)"
  have last: "lastSell st' = Some s" by (rule lastSell_snoc [OF ts])
  have d: "distinct (map fst lots)" unfolding assms(2) by (rule distinct_holdingBuyTrades)
  have at: "\<forall>(i, b) \<in> set lots. i < length (l_trades ?init) \<and> l_trades ?init ! i = Buy b"
    unfolding assms(2) by (auto simp: set_holdingBuyTrades)
  have fr: "buyTradesUsed s = ?fs" using sell_loop_fragments [OF loop] s by simp
  have len: "length (l_trades ls) = length ?ts"
    using sell_loop_trades [OF loop d at] by simp
  have le: "length ?fs \<le> length lots" using length_specFragments [of amt "map snd lots"] by simp
  from sell_loop_effect [OF loop d at, of ?fs] have
    eff: "\<And>j. j < length ?fs \<Longrightarrow>
            l_trades ls ! fst (lots ! j) = Buy (lotAfter (?fs ! j) (snd (lots ! j)))"
    and rest: "\<And>i. i \<notin> fst ` set (take (length ?fs) lots) \<Longrightarrow> l_trades ls ! i = ?ts ! i"
    by simp_all
  let ?P = "\<lambda>j i b f b'. lots ! j = (i, b) \<and> buyTradesUsed s ! j = f \<and> used_id f = buy_id b
            \<and> trades (getTradingHistory st') ! i = Buy b'
            \<and> (tokenAmount b \<le> tokensUsed f \<longrightarrow>
                  tokensUsed f = tokenAmount b \<and> b' = b\<lparr>status := SOLD\<rparr>)
            \<and> (tokensUsed f < tokenAmount b \<longrightarrow>
                  0 < tokensUsed f
                \<and> b' = b\<lparr>tokenAmount := tokenAmount b - tokensUsed f,
                           bnbAmount := bnbAmount b - costUsed f,
                           gasUsed := gasUsed b - used_gas f\<rparr>
                \<and> status b' = HOLDING
                \<and> 0 < tokenAmount b' \<and> tokenAmount b' \<le> tokenAmount b
                \<and> (0 \<le> bnbAmount b \<longrightarrow> 0 \<le> bnbAmount b' \<and> bnbAmount b' \<le> bnbAmount b)
                \<and> (0 \<le> gasUsed b \<longrightarrow> 0 \<le> gasUsed b' \<and> gasUsed b' \<le> gasUsed b))"
  have touched: "\<exists>i b f b'. ?P j i b f b'" if "j < length (buyTradesUsed s)" for j
  proof -
    from that fr have j: "j < length ?fs" by simp
    obtain i b where ib: "lots ! j = (i, b)" by (cases "lots ! j")
    from j le have jl: "j < length lots" by simp
    then have mem: "(i, b) \<in> set lots" using ib by (metis nth_mem)
    then have il: "i < length ?ts" and hold: "status b = HOLDING"
      unfolding assms(2) by (auto simp: set_holdingBuyTrades)
    have "list_all2 (\<lambda>f b. \<exists>q. 0 < q \<and> used_id f = buy_id b
         \<and> tokensUsed f = min q (tokenAmount b)
         \<and> costUsed f = bnbAmount b * (tokensUsed f / tokenAmount b)
         \<and> used_gas f = gasUsed b * (tokensUsed f / tokenAmount b))
       ?fs (take (length ?fs) (map snd lots))"
      by (rule specFragments_lots)
    from list_all2_nthD [OF this j] j jl ib obtain q where
      q: "0 < q" "used_id (?fs ! j) = buy_id b" "tokensUsed (?fs ! j) = min q (tokenAmount b)"
        "costUsed (?fs ! j) = bnbAmount b * (tokensUsed (?fs ! j) / tokenAmount b)"
        "used_gas (?fs ! j) = gasUsed b * (tokensUsed (?fs ! j) / tokenAmount b)"
      by auto
    have nth: "trades (getTradingHistory st') ! i = Buy (lotAfter (?fs ! j) b)"
      using eff [OF j] ib ts len il by (simp add: nth_append)
    note after = lotAfter_cases [OF q(1,3,4,5) hold]
    have "?P j i b (?fs ! j) (lotAfter (?fs ! j) b)"
      unfolding fr using ib q(2) nth after by blast
    then show ?thesis by blast
  qed
  have untouched: "trades (getTradingHistory st') ! i = ?ts ! i"
    if "i < length ?ts" "i \<notin> fst ` set (take (length (buyTradesUsed s)) lots)" for i
    using rest [of i] that ts len fr by (simp add: nth_append)
  have le': "length (buyTradesUsed s) \<le> length lots" using le fr by simp
  from last le' touched untouched show ?thesis by blast
qed

theorem sell_lot_mutation_witness:
  "(\<exists>info st' s.
      recordSellTrade \<lparr>now = 3, writable = True\<rparr> ''0xab'' ''CAKE'' 150 (14 / 100) 1 25000 ''0x34''
        scenarioStore = Inr (Some info, st')
    \<and> holdingBuyTrades (toLowerCase ''0xab'') (trades (getTradingHistory scenarioStore))
          = [(0, lotA), (1, lotB)]
    \<and> tokenAmount lotA = 100 \<and> tokenAmount lotB = 6667 / 100
    \<and> lastSell st' = Some s
    \<and> map used_id (buyTradesUsed s) = [buy_id lotA, buy_id lotB]
    \<and> map tokensUsed (buyTradesUsed s) = [100, 50]
    \<and> trades (getTradingHistory st') ! 0 = Buy (lotA\<lparr>status := SOLD\<rparr>)
    \<and> trades (getTradingHistory st') ! 1 =
          Buy (lotB\<lparr>tokenAmount := 6667 / 100 - 50, bnbAmount := 1 / 5 - 1000 / 6667,
                    gasUsed := 21000 - 105000000 / 6667\<rparr>))
   \<and> (\<exists>info st' s.
      recordSellTrade \<lparr>now = 3, writable = True\<rparr> ''0xab'' ''CAKE'' 50 (14 / 100) 1 25000 ''0x34''
        scenarioStore = Inr (Some info, st')
    \<and> lastSell st' = Some s
    \<and> map used_id (buyTradesUsed s) = [buy_id lotA]
    \<and> map tokensUsed (buyTradesUsed s) = [50]
    \<and> trades (getTradingHistory st') ! 0 =
          Buy (lotA\<lparr>tokenAmount := 100 - 50, bnbAmount := 1 / 10 - 1 / 20,
                    gasUsed := 21000 - 10500\<rparr>)
    \<and> trades (getTradingHistory st') ! 1 = Buy lotB)"
proof (rule conjI)
  from sell_lot_mutation [OF scenario_sell_both scenario_holding [symmetric]]
  obtain s where "lastSell (snd (projr (recordSellTrade \<lparr>now = 3, writable = True\<rparr> ''0xab'' ''CAKE''
      150 (14 / 100) 1 25000 ''0x34'' scenarioStore))) = Some s"
    unfolding scenario_sell_both by auto
  then show "\<exists>info st' s.
      recordSellTrade \<lparr>now = 3, writable = True\<rparr> ''0xab'' ''CAKE'' 150 (14 / 100) 1 25000 ''0x34''
        scenarioStore = Inr (Some info, st')
    \<and> holdingBuyTrades (toLowerCase ''0xab'') (trades (getTradingHistory scenarioStore))
          = [(0, lotA), (1, lotB)]
    \<and> tokenAmount lotA = 100 \<and> tokenAmount lotB = 6667 / 100
    \<and> lastSell st' = Some s
    \<and> map used_id (buyTradesUsed s) = [buy_id lotA, buy_id lotB]
    \<and> map tokensUsed (buyTradesUsed s) = [100, 50]
    \<and> trades (getTradingHistory st') ! 0 = Buy (lotA\<lparr>status := SOLD\<rparr>)
    \<and> trades (getTradingHistory st') ! 1 =
          Buy (lotB\<lparr>tokenAmount := 6667 / 100 - 50, bnbAmount := 1 / 5 - 1000 / 6667,
                    gasUsed := 21000 - 105000000 / 6667\<rparr>)"
    unfolding scenario_sell_both scenario_holding
    by (auto simp: lastSell_def trades_saved lotA_def lotB_def)
next
  from sell_lot_mutation [OF scenario_sell scenario_holding [symmetric]]
  obtain s where "lastSell (snd (projr (recordSellTrade \<lparr>now = 3, writable = True\<rparr> ''0xab'' ''CAKE''
      50 (14 / 100) 1 25000 ''0x34'' scenarioStore))) = Some s"
    unfolding scenario_sell by auto
  then show "\<exists>info st' s.
      recordSellTrade \<lparr>now = 3, writable = True\<rparr> ''0xab'' ''CAKE'' 50 (14 / 100) 1 25000 ''0x34''
        scenarioStore = Inr (Some info, st')
    \<and> lastSell st' = Some s
    \<and> map used_id (buyTradesUsed s) = [buy_id lotA]
    \<and> map tokensUsed (buyTradesUsed s) = [50]
    \<and> trades (getTradingHistory st') ! 0 =
          Buy (lotA\<lparr>tokenAmount := 100 - 50, bnbAmount := 1 / 10 - 1 / 20,
                    gasUsed := 21000 - 10500\<rparr>)
    \<and> trades (getTradingHistory st') ! 1 = Buy lotB"
    unfolding scenario_sell
    by (auto simp: lastSell_def trades_saved lotA_def lotB_def)
qed

text \<open>
  Against claim C4 as stated. Lot A, fully consumed by a sell of 100 tokens, is SOLD
  with its \<^verbatim>\<open>tokenAmount\<close> still 100, not 0; and a lot bought at no gas, half
  consumed, keeps \<^verbatim>\<open>gasUsed\<close> 0, which is not smaller than before.
\<close>

theorem sold_lot_keeps_amounts:
  "(\<exists>info st' s b'.
      recordSellTrade \<lparr>now = 3, writable = True\<rparr> ''0xab'' ''CAKE'' 100 (14 / 100) 1 25000 ''0x34''
        oneLotStore = Inr (Some info, st')
      \<and> trades (getTradingHistory oneLotStore) = [Buy lotA] \<and> tokenAmount lotA = 100
      \<and> trades (getTradingHistory st') = [Buy b', Sell s]
      \<and> map tokensUsed (buyTradesUsed s) = [100]
      \<and> status b' = SOLD \<and> tokenAmount b' = 100 \<and> bnbAmount b' = 1 / 10 \<and> gasUsed b' = 21000
      \<and> tokenAmount b' \<noteq> 0)
   \<and> (\<exists>info st' s b b'.
      recordSellTrade \<lparr>now = 3, writable = True\<rparr> ''0xab'' ''CAKE'' 50 (14 / 100) 1 25000 ''0x34''
        zeroGasStore = Inr (Some info, st')
      \<and> trades (getTradingHistory zeroGasStore) = [Buy b] \<and> tokenAmount b = 100
      \<and> trades (getTradingHistory st') = [Buy b', Sell s]
      \<and> map tokensUsed (buyTradesUsed s) = [50]
      \<and> status b' = HOLDING \<and> tokenAmount b' = 50 \<and> gasUsed b = 0 \<and> gasUsed b' = 0
      \<and> \<not> gasUsed b' < gasUsed b)"
  unfolding oneLot_sell_all zeroGas_sell_half
  by (simp add: oneLotStore_eq zeroGasStore_eq trades_saved lotA_def)

subsection \<open>Selling more than the lots hold\<close>




subsection \<open>What the loop keeps\<close>

lemma sell_loop_map_same:
  assumes "sell_loop ps ls = Inr ls'"
    and "distinct (map fst ps)"
    and "\<forall>(i, b) \<in> set ps. i < length (l_trades ls) \<and> l_trades ls ! i = Buy b"
    and "\<And>b b'. g (Buy b) = g (Buy b')"
  shows "map g (l_trades ls') = map g (l_trades ls)"
proof (rule nth_equalityI)
  from sell_loop_trades [OF assms(1-3)] have
    len: "length (l_trades ls') = length (l_trades ls)"
    and same: "\<And>j. j \<notin> fst ` set ps \<Longrightarrow> l_trades ls' ! j = l_trades ls ! j"
    and touched: "\<And>j c. (j, c) \<in> set ps \<Longrightarrow> \<exists>b'. l_trades ls' ! j = Buy b'"
    by auto
  show "length (map g (l_trades ls')) = length (map g (l_trades ls))" using len by simp
  fix i assume "i < length (map g (l_trades ls'))"
  then have il: "i < length (l_trades ls)" using len by simp
  show "map g (l_trades ls') ! i = map g (l_trades ls) ! i"
  proof (cases "i \<in> fst ` set ps")
    case False
    from same [OF False] il len show ?thesis by simp
  next
    case True
    then obtain c where c: "(i, c) \<in> set ps" by auto
    from touched [OF c] obtain b' where "l_trades ls' ! i = Buy b'" by blast
    moreover from assms(3) c have "l_trades ls ! i = Buy c" by auto
    ultimately show ?thesis using il len assms(4) [of b' c] by simp
  qed
qed

lemma sell_loop_lots_keep:
  assumes "sell_loop ps ls = Inr ls'"
    and "distinct (map fst ps)"
    and "\<forall>(i, b) \<in> set ps. i < length (l_trades ls) \<and> l_trades ls ! i = Buy b"
    and "\<forall>b. Buy b \<in> set (l_trades ls) \<longrightarrow> Q (tokenAmount b)"
    and "\<forall>x. 0 < x \<longrightarrow> Q x"
  shows "\<forall>b. Buy b \<in> set (l_trades ls') \<longrightarrow> Q (tokenAmount b)"
proof (intro allI impI)
  fix b' assume "Buy b' \<in> set (l_trades ls')"
  then obtain i where i: "i < length (l_trades ls')" "l_trades ls' ! i = Buy b'"
    by (auto simp: in_set_conv_nth)
  from sell_loop_trades [OF assms(1-3)] have
    len: "length (l_trades ls') = length (l_trades ls)"
    and same: "\<And>j. j \<notin> fst ` set ps \<Longrightarrow> l_trades ls' ! j = l_trades ls ! j"
    and touched: "\<And>j c. (j, c) \<in> set ps \<Longrightarrow> l_trades ls' ! j = Buy c
           \<or> (\<exists>r f b'. 0 < r \<and> consumeLot r c = Inr (f, b') \<and> l_trades ls' ! j = Buy b'
                 \<and> f \<in> set (processedBuyTrades ls'))"
    by auto
  have old: "\<And>c. l_trades ls ! i = Buy c \<Longrightarrow> Q (tokenAmount c)"
    using assms(4) i(1) len by (metis nth_mem)
  show "Q (tokenAmount b')"
  proof (cases "i \<in> fst ` set ps")
    case False
    from same [OF False] i old show ?thesis by simp
  next
    case True
    then obtain c where c: "(i, c) \<in> set ps" by auto
    with assms(3) have at: "l_trades ls ! i = Buy c" by auto
    from touched [OF c] show ?thesis
    proof
      assume "l_trades ls' ! i = Buy c"
      with i old [OF at] show ?thesis by simp
    next
      assume "\<exists>r f b'. 0 < r \<and> consumeLot r c = Inr (f, b') \<and> l_trades ls' ! i = Buy b'
                 \<and> f \<in> set (processedBuyTrades ls')"
      then obtain r f where "0 < r" "consumeLot r c = Inr (f, b')" using i by auto
      from consumeLot_cases [OF this] old [OF at] assms(5) show ?thesis by auto
    qed
  qed
qed

lemma sell_loop_lotsNonzero:
  assumes "sell_loop ps ls = Inr ls'"
    and "distinct (map fst ps)"
    and "\<forall>(i, b) \<in> set ps. i < length (l_trades ls) \<and> l_trades ls ! i = Buy b"
    and "lotsNonzero (l_trades ls)"
  shows "lotsNonzero (l_trades ls')"
  using sell_loop_lots_keep [OF assms(1-3), of "\<lambda>x. x \<noteq> 0"] assms(4)
  by (simp add: lotsNonzero_def)

lemma holdingBuyTrades_at:
  "\<forall>(i, b) \<in> set (holdingBuyTrades a ts). i < length ts \<and> ts ! i = Buy b"
  by (auto simp: set_holdingBuyTrades)





subsection \<open>Summary consistency\<close>

lemma updateSummary_consistent:
  assumes "summaryConsistent \<lparr>trades = ts, summary = sm\<rparr>"
    and "map gain ts' = map gain ts" "map loss ts' = map loss ts"
    and "profit s = p"
  shows "summaryConsistent \<lparr>trades = ts' @ [Sell s],
           summary = updateSummary sm p (ts' @ [Sell s])\<rparr>"
proof -
  from assms(1) have tp: "totalProfit sm = sum_list (map gain ts)"
    and tl: "totalLoss sm = sum_list (map loss ts)"
    by (simp_all add: summaryConsistent_def)
  show ?thesis
    using tp tl assms(2-4)
    by (auto simp: summaryConsistent_def updateSummary_def Let_def)
qed

lemma recordBuyTrade_keeps:
  assumes "lotsNonzero (trades (getTradingHistory st))"
    and "summaryConsistent (getTradingHistory st)"
    and "tok \<noteq> 0"
  shows "lotsNonzero (trades (getTradingHistory (snd (recordBuyTrade e a sy bnb tok pr gas tx st))))
     \<and> summaryConsistent (getTradingHistory (snd (recordBuyTrade e a sy bnb tok pr gas tx st)))"
  using assms
  by (auto simp: recordBuyTrade_def Let_def saved_def lotsNonzero_def summaryConsistent_def)

lemma recordSellTrade_keeps:
  assumes "lotsNonzero (trades (getTradingHistory st))"
    and "summaryConsistent (getTradingHistory st)"
  shows "\<exists>r st'. recordSellTrade e a sy amt recv pr gas tx st = Inr (r, st')
     \<and> lotsNonzero (trades (getTradingHistory st'))
     \<and> summaryConsistent (getTradingHistory st')"
proof -
  let ?ts = "trades (getTradingHistory st)"
  let ?ps = "holdingBuyTrades (toLowerCase a) ?ts"
  let ?init = "\<lparr>l_trades = ?ts, remainingTokensToSell = amt, l_totalCost = 0,
        l_totalGasUsed = gas, processedBuyTrades = []\<rparr>"
  have nz: "\<forall>p \<in> set ?ps. tokenAmount (snd p) \<noteq> 0"
    using assms(1) by (auto simp: set_holdingBuyTrades lotsNonzero_def) (metis nth_mem)
  from sell_loop_total [OF nz] obtain ls where loop: "sell_loop ?ps ?init = Inr ls" by blast
  show ?thesis
  proof (cases "?ps \<noteq> [] \<and> writable e")
    case False
    then have "recordSellTrade e a sy amt recv pr gas tx st = Inr (None, st)"
      using loop by (auto simp: recordSellTrade_def Let_def)
    with assms show ?thesis by simp
  next
    case True
    from recordSellTrade_total [OF _ nz, of e sy amt recv pr gas tx] True obtain info st' where
      r: "recordSellTrade e a sy amt recv pr gas tx st = Inr (Some info, st')" by blast
    from r obtain ls' s where
      loop': "sell_loop ?ps ?init = Inr ls'"
      and ts: "trades (getTradingHistory st') = l_trades ls' @ [Sell s]"
      and sm: "summary (getTradingHistory st') =
         updateSummary (summary (getTradingHistory st)) (recv - l_totalCost ls')
           (trades (getTradingHistory st'))"
      and s: "profit s = recv - l_totalCost ls'"
      by (rule recordSellTrade_Some) auto
    have at: "\<forall>(i, b) \<in> set ?ps. i < length (l_trades ?init) \<and> l_trades ?init ! i = Buy b"
      using holdingBuyTrades_at [of "toLowerCase a" ?ts] by simp
    have d: "distinct (map fst ?ps)" by (rule distinct_holdingBuyTrades)
    have g: "map gain (l_trades ls') = map gain ?ts"
      using sell_loop_map_same [OF loop' d at, of gain] by simp
    have l: "map loss (l_trades ls') = map loss ?ts"
      using sell_loop_map_same [OF loop' d at, of loss] by simp
    have "lotsNonzero (l_trades ls')"
      using sell_loop_lotsNonzero [OF loop' d at] assms(1) by simp
    then have nz': "lotsNonzero (trades (getTradingHistory st'))"
      unfolding ts by (auto simp: lotsNonzero_def)
    have "summaryConsistent \<lparr>trades = ?ts, summary = summary (getTradingHistory st)\<rparr>"
      using assms(2) by (simp add: summaryConsistent_def)
    from updateSummary_consistent [OF this g l s]
    have "summaryConsistent \<lparr>trades = trades (getTradingHistory st'),
            summary = summary (getTradingHistory st')\<rparr>"
      using ts sm by simp
    then have "summaryConsistent (getTradingHistory st')" by (simp add: summaryConsistent_def)
    with r nz' show ?thesis by blast
  qed
qed

lemma run_keeps:
  assumes "list_all buysTokens ops"
    and "lotsNonzero (trades (getTradingHistory st))"
    and "summaryConsistent (getTradingHistory st)"
  shows "\<exists>st'. run ops st = Inr st' \<and> lotsNonzero (trades (getTradingHistory st'))
     \<and> summaryConsistent (getTradingHistory st')"
  using assms
proof (induction ops arbitrary: st)
  case Nil
  then show ?case by simp
next
  case (Cons x xs)
  show ?case
  proof (cases x)
    case (RecordBuy e a sy bnb tok pr gas tx)
    with Cons.prems(1) have tok: "tok \<noteq> 0" by simp
    from recordBuyTrade_keeps [OF Cons.prems(2,3) tok, of e a sy bnb pr gas tx]
      Cons.IH [of "snd (recordBuyTrade e a sy bnb tok pr gas tx st)"] Cons.prems(1) RecordBuy
    show ?thesis by simp
  next
    case (RecordSell e a sy tok recv pr gas tx)
    from recordSellTrade_keeps [OF Cons.prems(2,3), of e a sy tok recv pr gas tx]
    obtain r st1 where r: "recordSellTrade e a sy tok recv pr gas tx st = Inr (r, st1)"
      and k: "lotsNonzero (trades (getTradingHistory st1))"
        "summaryConsistent (getTradingHistory st1)" by blast
    from Cons.IH [OF _ k] Cons.prems(1) r RecordSell show ?thesis by simp
  qed
qed

lemma initialStore_empty: "getTradingHistory initialStore = emptyHistory"
  by (simp add: initialStore_def saved_def emptyHistory_def)

lemma run_scenario:
  "\<exists>ts. run (buyOps @ sellOps) initialStore =
     Inr (saved \<lparr>trades = ts,
           summary = \<lparr>totalTrades = 4, totalProfit = 1 / 10, totalLoss = 1 / 20, winRate = 50\<rparr>\<rparr>)"
  by (simp add: buyOps_def sellOps_def initialStore_def emptyHistory_def emptySummary_def
      recordBuyTrade_def recordSellTrade_def holdingBuyTrades_def saved_def
      toLowerCase_0xab Let_def enumerate_eq_zip consumeLot_def updateSummary_def)

text \<open>
  Claim C5. After any sequence of calls of \<^verbatim>\<open>recordBuyTrade\<close> and
  \<^verbatim>\<open>recordSellTrade\<close> from a store that loads as the empty ledger, with buys that
  receive tokens, the calls all return and the summary is consistent with the SELL
  records: \<^verbatim>\<open>totalProfit\<close> is
  the sum of the positive profits, \<^verbatim>\<open>totalLoss\<close> the sum of the absolute values of
  the negative profits, and \<^verbatim>\<open>winRate\<close> is 100 times the share of the SELL records with
  a positive profit, or 0 without SELL records.
\<close>

theorem summary_consistency:
  assumes "getTradingHistory st0 = emptyHistory" "list_all buysTokens ops"
  shows "\<exists>st. run ops st0 = Inr st \<and> summaryConsistent (getTradingHistory st)"
proof -
  have "lotsNonzero (trades (getTradingHistory st0))"
    using assms(1) by (simp add: lotsNonzero_def emptyHistory_def)
  moreover have "summaryConsistent (getTradingHistory st0)"
    using assms(1) by (simp add: summaryConsistent_def emptyHistory_def emptySummary_def)
  ultimately show ?thesis using run_keeps [OF assms(2)] by blast
qed

theorem summary_consistency_witness:
  "list_all buysTokens (buyOps @ sellOps)
   \<and> (\<exists>st. run (buyOps @ sellOps) initialStore = Inr st
        \<and> summaryConsistent (getTradingHistory st)
        \<and> summary (getTradingHistory st) =
            \<lparr>totalTrades = 4, totalProfit = 1 / 10, totalLoss = 1 / 20, winRate = 50\<rparr>)"
proof -
  have ok: "list_all buysTokens (buyOps @ sellOps)"
    by (simp add: buyOps_def sellOps_def)
  from summary_consistency [OF initialStore_empty ok] obtain st where
    st: "run (buyOps @ sellOps) initialStore = Inr st" "summaryConsistent (getTradingHistory st)"
    by blast
  from run_scenario st(1) have "summary (getTradingHistory st) =
      \<lparr>totalTrades = 4, totalProfit = 1 / 10, totalLoss = 1 / 20, winRate = 50\<rparr>"
    by (auto simp: saved_def)
  with ok st show ?thesis by blast
qed

subsection \<open>Cost conservation\<close>

















subsection \<open>Cost conservation in double precision\<close>

text \<open>With the identity for the rounding, the second run of the ledger is the first.\<close>

lemma recordBuyTradeFl_exact:
  "recordBuyTradeFl (\<lambda>x. x) e a sy bnb tok pr gas tx st = recordBuyTrade e a sy bnb tok pr gas tx st"
  by (simp add: recordBuyTradeFl_def recordBuyTrade_def)

lemma consumeLotFl_exact: "consumeLotFl (\<lambda>x. x) r b = consumeLot r b"
  by (simp add: consumeLotFl_def consumeLot_def)

lemma sell_loopFl_exact: "sell_loopFl (\<lambda>x. x) ps ls = sell_loop ps ls"
proof (induction ps arbitrary: ls)
  case Nil
  show ?case by simp
next
  case (Cons p ps)
  obtain i b where "p = (i, b)" by (cases p)
  with Cons show ?case by (simp add: consumeLotFl_exact split: sum.splits)
qed

lemma recordSellTradeFl_exact:
  "recordSellTradeFl (\<lambda>x. x) e a sy tok recv pr gas tx st
     = recordSellTrade e a sy tok recv pr gas tx st"
  by (simp add: recordSellTradeFl_def recordSellTrade_def sell_loopFl_exact
      updateSummaryFl_def updateSummary_def Let_def split: sum.splits)

lemma runFl_exact: "runFl (\<lambda>x. x) ops st = run ops st"
proof (induction ops arbitrary: st)
  case Nil
  show ?case by simp
next
  case (Cons x xs)
  then show ?case
    by (cases x) (simp_all add: recordBuyTradeFl_exact recordSellTradeFl_exact split: sum.splits)
qed

text \<open>In exact arithmetic the calls of the scenario leave no HOLDING lot and conserve the cost.\<close>

lemma large_run_exact:
  "\<exists>st. run (largeBuys @ largeSells) initialStore = Inr st
     \<and> holdingBuyTrades ''0xab'' (trades (getTradingHistory st)) = []
     \<and> consumedCost ''0xab'' (trades (getTradingHistory st)) = 3 / 10"
  by (simp add: largeBuys_def largeSells_def initialStore_def emptyHistory_def emptySummary_def
      recordBuyTrade_def recordSellTrade_def holdingBuyTrades_def saved_def
      toLowerCase_0xab Let_def enumerate_eq_zip consumeLot_def updateSummary_def
      consumedCost_def)






subsection \<open>Route selection\<close>

lemma foldl_better_mem: "foldl better q qs \<in> set (q # qs)"
  by (induction qs arbitrary: q) (auto simp: better_def)

lemma foldl_better_ge_init: "rq_expectedAmount q \<le> rq_expectedAmount (foldl better q qs)"
proof (induction qs arbitrary: q)
  case Nil
  show ?case by simp
next
  case (Cons x xs)
  have "rq_expectedAmount q \<le> rq_expectedAmount (better q x)"
    by (simp add: better_def)
  also have "\<dots> \<le> rq_expectedAmount (foldl better (better q x) xs)"
    by (rule Cons.IH)
  finally show ?case by simp
qed

lemma foldl_better_max:
  "x \<in> set (q # qs) \<Longrightarrow> rq_expectedAmount x \<le> rq_expectedAmount (foldl better q qs)"
proof (induction qs arbitrary: q)
  case Nil
  then show ?case by simp
next
  case (Cons y ys)
  from Cons.prems consider "x = q" | "x \<in> set (y # ys)" by auto
  then show ?case
  proof cases
    case 1
    then show ?thesis using foldl_better_ge_init [of q "y # ys"] by simp
  next
    case 2
    then consider "x = y" | "x \<in> set ys" by auto
    then have "x \<in> set (better q y # ys) \<or> rq_expectedAmount x \<le> rq_expectedAmount (better q y)"
      by cases (auto simp: better_def)
    then show ?thesis
    proof
      assume "x \<in> set (better q y # ys)"
      then show ?thesis using Cons.IH [of "better q y"] by simp
    next
      assume "rq_expectedAmount x \<le> rq_expectedAmount (better q y)"
      also have "\<dots> \<le> rq_expectedAmount (foldl better (better q y) ys)"
        by (rule foldl_better_ge_init)
      finally show ?thesis by simp
    qed
  qed
qed

lemma pushQuote_okQuote:
  "pushQuote v c = (case okQuote c of None \<Rightarrow> []
     | Some q \<Rightarrow> [\<lparr>rq_version = v, rq_expectedAmount = expectedAmount q, rq_quote = q\<rparr>])"
  by (cases "(v, c)" rule: pushQuote.cases) auto

lemma map_rq_quote_pushQuote: "map rq_quote (pushQuote v c) = List.map_filter okQuote [c]"
  by (simp add: pushQuote_okQuote split: option.splits)

lemma rq_expectedAmount_pushQuote:
  "x \<in> set (pushQuote v c) \<Longrightarrow> rq_expectedAmount x = expectedAmount (rq_quote x)"
  by (auto simp: pushQuote_okQuote split: option.splits)

lemma map_rq_quote_collectQuotes:
  "map rq_quote (collectQuotes gv2 gv3 a n d) = List.map_filter okQuote (candidates gv2 gv3 a n d)"
  by (simp add: collectQuotes_def candidates_def map_rq_quote_pushQuote List.map_filter_def)

lemma collectQuotes_amount:
  "x \<in> set (collectQuotes gv2 gv3 a n d) \<Longrightarrow> rq_expectedAmount x = expectedAmount (rq_quote x)"
  by (auto simp: collectQuotes_def rq_expectedAmount_pushQuote)

lemma getBestRoute_Nil:
  "collectQuotes gv2 gv3 a n d = [] \<Longrightarrow> getBestRoute gv2 gv3 a n d = NoValidQuote"
  by (simp add: getBestRoute_def)

lemma getBestRoute_Cons:
  "collectQuotes gv2 gv3 a n d = q # qs \<Longrightarrow>
   \<exists>cmp. getBestRoute gv2 gv3 a n d = BestRoute (rq_quote (foldl better q qs)) (q # qs) cmp
     \<and> bestPrice cmp = rq_expectedAmount (foldl better q qs)"
  by (simp add: getBestRoute_def Let_def)

text \<open>
  Claim C6. \<^verbatim>\<open>getBestRoute\<close> fails exactly when none of the four candidates (V2 and
  the V3 fee tiers 2500, 500, 10000) succeeded; otherwise \<^verbatim>\<open>allQuotes\<close> holds the
  quotes of the candidates that succeeded, in the order of the call and without the
  failed ones, and \<^verbatim>\<open>bestRoute\<close> is one of them whose expected amount no other
  exceeds, whatever the direction \<open>isBuy\<close>. In the scenario (V2 100, V3 at 500 gives 95,
  V3 at 2500 gives 110, V3 at 10000 fails) the best route is V3 at 2500 with 110, among
  three quotes.
\<close>

theorem getBestRoute_selects_largest:
  "(getBestRoute gv2 gv3 a n isBuy = NoValidQuote
      \<longleftrightarrow> List.map_filter okQuote (candidates gv2 gv3 a n isBuy) = [])
   \<and> (\<forall>best quotes cmp. getBestRoute gv2 gv3 a n isBuy = BestRoute best quotes cmp \<longrightarrow>
        map rq_quote quotes = List.map_filter okQuote (candidates gv2 gv3 a n isBuy)
        \<and> best \<in> set (map rq_quote quotes)
        \<and> (\<forall>q \<in> set (map rq_quote quotes). expectedAmount q \<le> expectedAmount best)
        \<and> bestPrice cmp = expectedAmount best)
   \<and> (\<exists>cmp. getBestRoute scenarioV2 scenarioV3 a n isBuy =
          BestRoute (v3Quote 2500 110)
            [\<lparr>rq_version = V2, rq_expectedAmount = 100, rq_quote = v2Quote100\<rparr>,
             \<lparr>rq_version = V3, rq_expectedAmount = 110, rq_quote = v3Quote 2500 110\<rparr>,
             \<lparr>rq_version = V3, rq_expectedAmount = 95, rq_quote = v3Quote 500 95\<rparr>] cmp
        \<and> bestPrice cmp = 110)"
proof -
  have general: "(getBestRoute gv2 gv3 a n isBuy = NoValidQuote
      \<longleftrightarrow> List.map_filter okQuote (candidates gv2 gv3 a n isBuy) = [])
   \<and> (\<forall>best quotes cmp. getBestRoute gv2 gv3 a n isBuy = BestRoute best quotes cmp \<longrightarrow>
        map rq_quote quotes = List.map_filter okQuote (candidates gv2 gv3 a n isBuy)
        \<and> best \<in> set (map rq_quote quotes)
        \<and> (\<forall>q \<in> set (map rq_quote quotes). expectedAmount q \<le> expectedAmount best)
        \<and> bestPrice cmp = expectedAmount best)"
  proof (cases "collectQuotes gv2 gv3 a n isBuy")
    case Nil
    then show ?thesis
      using map_rq_quote_collectQuotes [of gv2 gv3 a n isBuy] getBestRoute_Nil [OF Nil] by simp
  next
    case (Cons q qs)
    let ?b = "foldl better q qs"
    have mem: "?b \<in> set (q # qs)" by (rule foldl_better_mem)
    have amt: "\<And>x. x \<in> set (q # qs) \<Longrightarrow> rq_expectedAmount x = expectedAmount (rq_quote x)"
      using collectQuotes_amount [of _ gv2 gv3 a n isBuy] Cons by simp
    have mx: "\<And>x. x \<in> set (q # qs) \<Longrightarrow> expectedAmount (rq_quote x) \<le> expectedAmount (rq_quote ?b)"
      using foldl_better_max [of _ q qs] amt mem by metis
    have ne: "List.map_filter okQuote (candidates gv2 gv3 a n isBuy) \<noteq> []"
      using map_rq_quote_collectQuotes [of gv2 gv3 a n isBuy] Cons by auto
    from getBestRoute_Cons [OF Cons] obtain c where
      c: "getBestRoute gv2 gv3 a n isBuy = BestRoute (rq_quote ?b) (q # qs) c"
         "bestPrice c = rq_expectedAmount ?b" by blast
    show ?thesis
      using Cons ne mem mx amt [OF mem] map_rq_quote_collectQuotes [of gv2 gv3 a n isBuy] c
      by auto
  qed
  have "collectQuotes scenarioV2 scenarioV3 a n isBuy =
      [\<lparr>rq_version = V2, rq_expectedAmount = 100, rq_quote = v2Quote100\<rparr>,
       \<lparr>rq_version = V3, rq_expectedAmount = 110, rq_quote = v3Quote 2500 110\<rparr>,
       \<lparr>rq_version = V3, rq_expectedAmount = 95, rq_quote = v3Quote 500 95\<rparr>]"
    by (simp add: collectQuotes_def scenarioV2_def scenarioV3_def v2Quote100_def v3Quote_def)
  from getBestRoute_Cons [OF this] have scenario:
    "\<exists>cmp. getBestRoute scenarioV2 scenarioV3 a n isBuy =
          BestRoute (v3Quote 2500 110)
            [\<lparr>rq_version = V2, rq_expectedAmount = 100, rq_quote = v2Quote100\<rparr>,
             \<lparr>rq_version = V3, rq_expectedAmount = 110, rq_quote = v3Quote 2500 110\<rparr>,
             \<lparr>rq_version = V3, rq_expectedAmount = 95, rq_quote = v3Quote 500 95\<rparr>] cmp
        \<and> bestPrice cmp = 110"
    by (simp add: better_def)
  from general scenario show ?thesis by blast
qed

theorem getBestRoute_selects_largest_witness:
  "getBestRoute scenarioV2 scenarioV3 ''0xab'' 1 True \<noteq> NoValidQuote
   \<and> getBestRoute scenarioV2 (\<lambda>a n b f. Rejected) ''0xab'' 1 False \<noteq> NoValidQuote
   \<and> getBestRoute (\<lambda>a n b. Fulfilled (QuoteFailed ''reverted'')) (\<lambda>a n b f. Rejected) ''0xab'' 1 True
       = NoValidQuote
   \<and> List.map_filter okQuote (candidates scenarioV2 scenarioV3 ''0xab'' 1 True)
       = [v2Quote100, v3Quote 2500 110, v3Quote 500 95]"
  using getBestRoute_selects_largest [of scenarioV2 scenarioV3 "''0xab''" 1 True]
    getBestRoute_selects_largest [of scenarioV2 "\<lambda>a n b f. Rejected" "''0xab''" 1 False]
    getBestRoute_selects_largest [of "\<lambda>a n b. Fulfilled (QuoteFailed ''reverted'')"
      "\<lambda>a n b f. Rejected" "''0xab''" 1 True]
  by (simp add: candidates_def scenarioV2_def scenarioV3_def)

subsection \<open>The minimum output of a buy\<close>

lemma floor_199_half: "\<lfloor>199 / 2 :: rat\<rfloor> = 99"
  by (simp add: floor_eq_iff)

lemma amountOutMin_integer:
  assumes "0 \<le> x" "0 \<le> k" "k \<le> 100"
  shows "amountOutMin x (of_int k) = Inr (x * (100 - k) div 100)"
proof -
  have "toBigInt (of_int (100 - k)) = Inr (100 - k)"
    unfolding toBigInt_def floor_of_int by simp
  then have "toBigInt (100 - of_int k) = Inr (100 - k)"
    by simp
  moreover have "0 \<le> x * (100 - k)" using assms by simp
  then have "bigintDiv (x * (100 - k)) 100 = x * (100 - k) div 100"
    by (simp add: bigintDiv_def)
  ultimately show ?thesis by (simp add: amountOutMin_def)
qed

text \<open>
  Claim C9. The command \<^verbatim>\<open>/slippage 0.5\<close> is accepted and stores the slippage 0.5,
  and so does a default of 50 basis points; with it, the minimum output of a buy that
  expects 1000 units is not 995: the conversion of 99.5 to a BigInt throws a RangeError,
  and the buy fails before the swap.
\<close>

theorem amountOutMin_fractional_slippage:
  "slippage (handleSlippageSet (1 / 2) \<lparr>slippage = 5, gasPrice = 1 / 10, gasLimit = 300000\<rparr>)
     = 1 / 2
   \<and> defaultSlippage 50 = 1 / 2
   \<and> amountOutMin 1000 (1 / 2) = Inl RangeError"
  by (simp add: handleSlippageSet_def defaultSlippage_def amountOutMin_def toBigInt_def
      floor_199_half)

end
